theory Spec2Isabelle
  imports Complex_Main "HOL-Library.Word" "HOL-Library.Sublist"
begin

section \<open>JavaScript strings\<close>

text \<open>
  A JavaScript string is a sequence of UTF-16 code units. The model takes the code
  units below 256, so that a code unit is a \<^typ>\<open>char\<close> and a string is a
  \<^typ>\<open>string\<close>; \<open>length\<close> is the \<open>.length\<close> of the source.
\<close>

text \<open>
  White space as \<open>String.prototype.trim\<close> and the regular expression class \<open>\s\<close>
  read it: tab, line feed, vertical tab, form feed, carriage return, space and
  no-break space are the ones below 256.
\<close>

definition is_space :: "char \<Rightarrow> bool" where
  "is_space c = (c \<in> set [CHR 0x09, CHR 0x0A, CHR 0x0B, CHR 0x0C, CHR 0x0D, CHR 0x20, CHR 0xA0])"

text \<open>Line terminators, which the regular expression \<open>.\<close> does not match.\<close>

definition is_line_terminator :: "char \<Rightarrow> bool" where
  "is_line_terminator c = (c \<in> set [CHR 0x0A, CHR 0x0D])"

definition trim :: "string \<Rightarrow> string" where
  "trim s = rev (dropWhile is_space (rev (dropWhile is_space s)))"

definition is_upper_AZ :: "char \<Rightarrow> bool" where
  "is_upper_AZ c = (65 \<le> (of_char c :: nat) \<and> (of_char c :: nat) \<le> 90)"

text \<open>
  \<open>toLowerCase\<close> on code units below 256: the letters A to Z and the accented
  capitals from 192 to 222 (the multiplication sign 215 apart) move up by 32.
\<close>

definition toLowerCase_char :: "char \<Rightarrow> char" where
  "toLowerCase_char c =
     (let n = (of_char c :: nat)
      in if (65 \<le> n \<and> n \<le> 90) \<or> (192 \<le> n \<and> n \<le> 222 \<and> n \<noteq> 215)
         then char_of (n + 32) else c)"

definition toLowerCase :: "string \<Rightarrow> string" where
  "toLowerCase s = map toLowerCase_char s"

text \<open>\<open>field.replace(/([A-Z])/g, ' $1')\<close>: a space before every capital letter.\<close>

fun space_before_capitals :: "string \<Rightarrow> string" where
  "space_before_capitals [] = []"
| "space_before_capitals (c # cs) =
     (if is_upper_AZ c then CHR '' '' # c # space_before_capitals cs
      else c # space_before_capitals cs)"

section \<open>The types of the application\<close>

record CustomTemplate =
  template_id :: string
  template_name :: string
  template_content :: string

record SavedScript =
  script_id :: string
  title :: string
  content :: string
  script_ownerName :: string
  script_businessName :: string
  createdAt :: int

text \<open>
  A value read from a plain object by a computed key: a string that is an own property,
  \<open>undefined\<close> for a name that is no property at all, or the member that every plain
  object inherits from \<open>Object.prototype\<close> under that name (a function or an object,
  never a string).
\<close>

datatype jsvalue = Str string | Undefined | Inherited string

fun truthy :: "jsvalue \<Rightarrow> bool" where
  "truthy (Str s) = (s \<noteq> [])"
| "truthy Undefined = False"
| "truthy (Inherited k) = True"

record VoiceNoteInput =
  ownerName :: string
  businessName :: string
  identifiedGap :: string
  freeValue :: string
  platform :: string
  tone :: string
  goal :: string
  templateId :: "string option"
  referenceScriptId :: "string option"
  selectedVoice :: jsvalue

record VoiceNoteResult =
  script :: string
  followUp :: string

datatype GenerationStatus = IDLE | LOADING | SUCCESS | ERROR

section \<open>The form controller (OutreachForm)\<close>

text \<open>
  The state of the component: its \<open>useState\<close> cells, and the two properties it is
  mounted with. The two clipboard flags are left out; no handler below reads or writes
  them.
\<close>

record controller =
  formData :: VoiceNoteInput
  activeTemplate :: "CustomTemplate option"
  result :: "VoiceNoteResult option"
  status :: GenerationStatus
  errorMessage :: "string option"
  ttsLoading :: bool
  isPlaying :: bool
  isSavedInLibrary :: bool
  initialReference :: "SavedScript option"

definition initial_formData :: VoiceNoteInput where
  "initial_formData =
     \<lparr>ownerName = [], businessName = [], identifiedGap = [], freeValue = [],
      platform = ''Instagram'', tone = ''Casual'', goal = ''Permission to Send'',
      templateId = None, referenceScriptId = None, selectedVoice = Str ''Puck''\<rparr>"

definition mount :: "SavedScript option \<Rightarrow> controller" where
  "mount reference =
     \<lparr>formData = initial_formData, activeTemplate = None, result = None, status = IDLE,
      errorMessage = None, ttsLoading = False, isPlaying = False, isSavedInLibrary = False,
      initialReference = reference\<rparr>"

subsection \<open>Validation\<close>

text \<open>The four required fields, in the order of the source, each with its accessor.\<close>

definition requiredFields :: "(string \<times> (VoiceNoteInput \<Rightarrow> string)) list" where
  "requiredFields =
     [(''ownerName'', ownerName), (''businessName'', businessName),
      (''identifiedGap'', identifiedGap), (''freeValue'', freeValue)]"

definition field_invalid :: "string \<Rightarrow> bool" where
  "field_invalid v = (v = [] \<or> length (trim v) < 2)"

definition validation_message :: "string \<Rightarrow> string" where
  "validation_message field =
     ''Please provide a valid value for '' @ toLowerCase (space_before_capitals field) @ ''.''"

text \<open>
  The loop of \<open>validateFields\<close>: the message of the first field that fails, or
  \<open>None\<close> when the loop runs to its end.
\<close>

fun first_invalid :: "(string \<times> (VoiceNoteInput \<Rightarrow> string)) list \<Rightarrow> VoiceNoteInput \<Rightarrow> string option" where
  "first_invalid [] d = None"
| "first_invalid ((field, get) # fs) d =
     (if field_invalid (get d) then Some (validation_message field) else first_invalid fs d)"

definition validateFields :: "controller \<Rightarrow> bool \<times> controller" where
  "validateFields s =
     (case first_invalid requiredFields (formData s) of
        Some msg \<Rightarrow> (False, s\<lparr>errorMessage := Some msg\<rparr>)
      | None \<Rightarrow> (True, s))"

subsection \<open>Generation\<close>

text \<open>What \<open>handleGenerate\<close> hands to \<open>generateVoiceNote\<close>.\<close>

record generation_request =
  request_input :: VoiceNoteInput
  request_template :: "CustomTemplate option"
  request_reference :: "SavedScript option"

text \<open>
  \<open>handleGenerate\<close> up to its \<open>await\<close>: the new state, and the backend call it
  started, if any.
\<close>

definition handleGenerate :: "controller \<Rightarrow> controller \<times> generation_request option" where
  "handleGenerate s =
     (if status s = LOADING then (s, None)
      else
        (case validateFields (s\<lparr>errorMessage := None\<rparr>) of
           (False, s') \<Rightarrow> (s', None)
         | (True, s') \<Rightarrow>
             (s'\<lparr>status := LOADING, result := None\<rparr>,
              Some \<lparr>request_input = formData s', request_template = activeTemplate s',
                    request_reference = initialReference s'\<rparr>)))"

text \<open>
  How the call comes back: a result, or an exception with its message
  (\<open>generateVoiceNote\<close> throws an \<open>Error\<close> whose message may be empty in principle).
\<close>

datatype generation_outcome = Generated VoiceNoteResult | Failed string

subsection \<open>The calls of the state setters\<close>

text \<open>
  A handler reads the state of the render it belongs to: \<open>status\<close>, \<open>formData\<close> and
  the other cells are constants of that render. A call of a setter does not change
  them; it queues an update that the next render shows. So a handler is also given as
  the calls of the setters it makes, in the order of the source.
\<close>

datatype setter =
  SetErrorMessage "string option" | SetStatus GenerationStatus
  | SetResult "VoiceNoteResult option" | SetIsSavedInLibrary bool

fun set_state :: "controller \<Rightarrow> setter \<Rightarrow> controller" where
  "set_state s (SetErrorMessage m) = s\<lparr>errorMessage := m\<rparr>"
| "set_state s (SetStatus st) = s\<lparr>status := st\<rparr>"
| "set_state s (SetResult r) = s\<lparr>result := r\<rparr>"
| "set_state s (SetIsSavedInLibrary b) = s\<lparr>isSavedInLibrary := b\<rparr>"

text \<open>
  The calls of \<open>handleGenerate\<close> up to its \<open>await\<close>, and the backend call it starts,
  for the state \<open>s\<close> of the render the handler belongs to.
\<close>

definition handleGenerate_calls :: "controller \<Rightarrow> setter list \<times> generation_request option" where
  "handleGenerate_calls s =
     (if status s = LOADING then ([], None)
      else
        (case first_invalid requiredFields (formData s) of
           Some msg \<Rightarrow> ([SetErrorMessage None, SetErrorMessage (Some msg)], None)
         | None \<Rightarrow>
             ([SetErrorMessage None, SetStatus LOADING, SetResult None],
              Some \<lparr>request_input = formData s, request_template = activeTemplate s,
                    request_reference = initialReference s\<rparr>)))"

text \<open>The calls of \<open>handleGenerate\<close> after its \<open>await\<close>.\<close>

fun handleGenerate_resume :: "generation_outcome \<Rightarrow> setter list" where
  "handleGenerate_resume (Generated data) = [SetResult (Some data), SetStatus SUCCESS]"
| "handleGenerate_resume (Failed msg) =
     [SetErrorMessage (Some (if msg \<noteq> [] then msg else ''Something went wrong.'')),
      SetStatus ERROR]"

text \<open>
  The calls of the effect on \<open>result\<close>, which runs after a render whose result is a
  new one.
\<close>

definition result_effect :: "setter list" where
  "result_effect = [SetIsSavedInLibrary False, SetErrorMessage None]"

subsection \<open>Editing the form\<close>

text \<open>The keys of \<open>VoiceNoteInput\<close>.\<close>

datatype field =
  OwnerName | BusinessName | IdentifiedGap | FreeValue | Platform | Tone | Goal
  | TemplateId | ReferenceScriptId | SelectedVoice

definition TONE_VOICE_MAP :: "(string \<times> string) list" where
  "TONE_VOICE_MAP =
     [(''Casual'', ''Puck''), (''Professional'', ''Charon''),
      (''Direct'', ''Fenrir''), (''Warm'', ''Kore'')]"

text \<open>
  \<open>TONE_VOICE_MAP\<close> is a plain object, so reading it at a computed key also finds the
  members of \<open>Object.prototype\<close>: these are their names (ECMAScript, with its annex
  for browsers).
\<close>

definition Object_prototype_names :: "string list" where
  "Object_prototype_names =
     [''constructor'', ''hasOwnProperty'', ''isPrototypeOf'', ''propertyIsEnumerable'',
      ''toLocaleString'', ''toString'', ''valueOf'', ''__proto__'',
      ''__defineGetter__'', ''__defineSetter__'', ''__lookupGetter__'', ''__lookupSetter__'']"

text \<open>\<open>TONE_VOICE_MAP[value]\<close>.\<close>

definition TONE_VOICE_MAP_at :: "string \<Rightarrow> jsvalue" where
  "TONE_VOICE_MAP_at v =
     (case map_of TONE_VOICE_MAP v of
        Some voice \<Rightarrow> Str voice
      | None \<Rightarrow> if v \<in> set Object_prototype_names then Inherited v else Undefined)"

text \<open>\<open>{ ...prev, [field]: value }\<close>, for a value that is a string.\<close>

fun with_field :: "field \<Rightarrow> string \<Rightarrow> VoiceNoteInput \<Rightarrow> VoiceNoteInput" where
  "with_field OwnerName v d = d\<lparr>ownerName := v\<rparr>"
| "with_field BusinessName v d = d\<lparr>businessName := v\<rparr>"
| "with_field IdentifiedGap v d = d\<lparr>identifiedGap := v\<rparr>"
| "with_field FreeValue v d = d\<lparr>freeValue := v\<rparr>"
| "with_field Platform v d = d\<lparr>platform := v\<rparr>"
| "with_field Tone v d = d\<lparr>tone := v\<rparr>"
| "with_field Goal v d = d\<lparr>goal := v\<rparr>"
| "with_field TemplateId v d = d\<lparr>templateId := Some v\<rparr>"
| "with_field ReferenceScriptId v d = d\<lparr>referenceScriptId := Some v\<rparr>"
| "with_field SelectedVoice v d = d\<lparr>selectedVoice := Str v\<rparr>"

definition updateField :: "field \<Rightarrow> string \<Rightarrow> controller \<Rightarrow> controller" where
  "updateField field v s =
     (let newData = with_field field v (formData s)
      in s\<lparr>formData :=
            (if field = Tone
             then newData\<lparr>selectedVoice :=
                    (if truthy (TONE_VOICE_MAP_at v) then TONE_VOICE_MAP_at v else Str ''Zephyr'')\<rparr>
             else newData)\<rparr>)"

section \<open>Timing markers and the duration estimate\<close>

text \<open>
  \<open>text.replace(/\[.*?\]/g, '')\<close>. A match starts at an opening bracket and ends at
  the nearest closing bracket after it, with no line terminator in between (\<open>.\<close>
  matches none); the search goes on after the match. An opening bracket that no closing
  bracket follows on its line stays.
\<close>

text \<open>The text after the closing bracket, when the rest of a match is found.\<close>

fun after_marker :: "string \<Rightarrow> string option" where
  "after_marker [] = None"
| "after_marker (c # cs) =
     (if c = CHR '']'' then Some cs
      else if is_line_terminator c then None
      else after_marker cs)"

lemma after_marker_shorter: "after_marker cs = Some r \<Longrightarrow> length r < Suc (length cs)"
  by (induction cs) (auto split: if_splits)

function strip_markers :: "string \<Rightarrow> string" where
  "strip_markers [] = []"
| "strip_markers (c # cs) =
     (if c = CHR ''[''
      then (case after_marker cs of
              Some r \<Rightarrow> strip_markers r
            | None \<Rightarrow> c # strip_markers cs)
      else c # strip_markers cs)"
  by pat_completeness auto
termination
  by (relation "measure length") (auto dest: after_marker_shorter)

text \<open>
  \<open>s.split(/\s+/)\<close>: the pieces between the runs of white space. A string that
  starts or ends with white space gives an empty first or last piece, and the empty
  string gives one empty piece.
\<close>

function split_space :: "string \<Rightarrow> string \<Rightarrow> string list" where
  "split_space piece [] = [rev piece]"
| "split_space piece (c # cs) =
     (if is_space c then rev piece # split_space [] (dropWhile is_space cs)
      else split_space (c # piece) cs)"
  by pat_completeness auto
termination
  by (relation "measure (\<lambda>(piece, s). length s)")
     (auto simp: less_Suc_eq_le length_dropWhile_le)

definition split_whitespace :: "string \<Rightarrow> string list" where
  "split_whitespace s = split_space [] s"

text \<open>\<open>Math.round\<close>: the nearest integer, a half going up.\<close>

definition Math_round :: "real \<Rightarrow> int" where
  "Math_round x = \<lfloor>x + 1 / 2\<rfloor>"

text \<open>
  The words the estimate counts. The division by 140 and the product by 60 are
  floating-point operations in the source; no word count brings the exact quotient
  within 1/14 of a half, so the rounding of those two operations cannot move the result
  of \<open>Math.round\<close>, and the model computes in the reals.
\<close>

definition word_count :: "string \<Rightarrow> nat" where
  "word_count script_text = length (split_whitespace (trim (strip_markers script_text)))"

definition estimatedDuration :: "VoiceNoteResult option \<Rightarrow> int" where
  "estimatedDuration r =
     (case r of
        None \<Rightarrow> 0
      | Some res \<Rightarrow>
          if script res = [] then 0
          else Math_round ((real (word_count (script res)) / 140) * 60))"

record duration_badge =
  label :: string
  color :: string
  bar :: string

definition durationStatus :: "int \<Rightarrow> duration_badge" where
  "durationStatus d =
     (if d < 30 then \<lparr>label = ''Too Short'', color = ''text-amber-400'', bar = ''bg-amber-400''\<rparr>
      else if d \<le> 55 then \<lparr>label = ''Perfect Length'', color = ''text-green-400'', bar = ''bg-green-400''\<rparr>
      else \<lparr>label = ''A Bit Long'', color = ''text-red-400'', bar = ''bg-red-400''\<rparr>)"

subsection \<open>Speech synthesis\<close>

text \<open>The text \<open>generateSpeech\<close> sends: its \<open>cleanText\<close> and its prompt.\<close>

definition cleanText :: "string \<Rightarrow> string" where
  "cleanText t = trim (strip_markers t)"

definition generateSpeech_prompt :: "string \<Rightarrow> string \<Rightarrow> string" where
  "generateSpeech_prompt t tone_label =
     ''Voice this script in a '' @ toLowerCase tone_label @ '' tone: '' @ [CHR 0x22]
       @ cleanText t @ [CHR 0x22]"

section \<open>Persistent storage\<close>

text \<open>
  The keys of \<open>localStorage\<close> that the form, the library and the application shell
  use. \<open>None\<close> is a key that is not there. A key that is there holds the text that
  \<open>JSON.stringify\<close> wrote, and the model keeps the value that \<open>JSON.parse\<close> reads
  back from that text: for records of strings and a whole number the two are inverse.
  Under \<open>app_active_reference\<close> the inner \<open>None\<close> is the text \<open>null\<close>. The active
  tab is written as it is, with no encoding.
\<close>

record localStorage =
  voice_note_library :: "SavedScript list option"
  app_active_reference :: "SavedScript option option"
  app_active_tab :: "string option"

subsection \<open>Saving a script (OutreachForm)\<close>

text \<open>\<open>Number.prototype.toString\<close> on a whole number of milliseconds.\<close>

definition digit_char :: "nat \<Rightarrow> char" where
  "digit_char d = char_of (48 + d)"

function decimal :: "nat \<Rightarrow> string" where
  "decimal n = (if n < 10 then [digit_char n] else decimal (n div 10) @ [digit_char (n mod 10)])"
  by pat_completeness auto
termination
  by (relation "measure id") auto

declare decimal.simps [simp del]

definition Number_toString :: "int \<Rightarrow> string" where
  "Number_toString n = (if n < 0 then CHR ''-'' # decimal (nat (- n)) else decimal (nat n))"

text \<open>\<open>JSON.parse(localStorage.getItem('voice_note_library') || '[]')\<close>.\<close>

definition stored_library :: "localStorage \<Rightarrow> SavedScript list" where
  "stored_library st = (case voice_note_library st of None \<Rightarrow> [] | Some xs \<Rightarrow> xs)"

text \<open>
  The entry that \<open>handleSaveToLibrary\<close> builds. \<open>Date.now()\<close> is read twice, once
  for the id and once for the creation time.
\<close>

definition newEntry :: "int \<Rightarrow> int \<Rightarrow> VoiceNoteInput \<Rightarrow> VoiceNoteResult \<Rightarrow> SavedScript" where
  "newEntry now_id now_created d r =
     \<lparr>script_id = Number_toString now_id,
      title = ownerName d @ '' @ '' @ businessName d,
      content = script r,
      script_ownerName = ownerName d,
      script_businessName = businessName d,
      createdAt = now_created\<rparr>"

definition handleSaveToLibrary ::
  "int \<Rightarrow> int \<Rightarrow> controller \<Rightarrow> localStorage \<Rightarrow> controller \<times> localStorage" where
  "handleSaveToLibrary now_id now_created s st =
     (case result s of
        None \<Rightarrow> (s, st)
      | Some r \<Rightarrow>
          if script r = [] then (s, st)
          else
            (s\<lparr>isSavedInLibrary := True\<rparr>,
             st\<lparr>voice_note_library :=
                  Some (newEntry now_id now_created (formData s) r # stored_library st)\<rparr>))"

subsection \<open>The library (LibraryView)\<close>

record library_view =
  scripts :: "SavedScript list"
  searchTerm :: string

definition loadScripts :: "localStorage \<Rightarrow> library_view \<Rightarrow> library_view" where
  "loadScripts st v = (case voice_note_library st of None \<Rightarrow> v | Some xs \<Rightarrow> v\<lparr>scripts := xs\<rparr>)"

text \<open>The view as it is mounted: empty, then loaded by the first effect.\<close>

definition LibraryView_mount :: "localStorage \<Rightarrow> library_view" where
  "LibraryView_mount st = loadScripts st \<lparr>scripts = [], searchTerm = []\<rparr>"

text \<open>\<open>handleDelete\<close>; the first argument is the answer to the \<open>confirm\<close> dialogue.\<close>

definition handleDelete ::
  "bool \<Rightarrow> string \<Rightarrow> library_view \<Rightarrow> localStorage \<Rightarrow> library_view \<times> localStorage" where
  "handleDelete confirmed i v st =
     (if \<not> confirmed then (v, st)
      else
        (let updated = filter (\<lambda>s. script_id s \<noteq> i) (scripts v)
         in (v\<lparr>scripts := updated\<rparr>, st\<lparr>voice_note_library := Some updated\<rparr>)))"

subsection \<open>The application shell (App)\<close>

record app =
  activeTab :: string
  selectedReference :: "SavedScript option"

text \<open>The two lazy initialisers of \<open>useState\<close>.\<close>

definition App_init :: "localStorage \<Rightarrow> app" where
  "App_init st =
     \<lparr>activeTab =
        (case app_active_tab st of
           None \<Rightarrow> ''create''
         | Some t \<Rightarrow> if t = [] then ''create'' else t),
      selectedReference =
        (case app_active_reference st of None \<Rightarrow> None | Some saved \<Rightarrow> saved)\<rparr>"

text \<open>
  The two effects, which run after a render that changed the tab or the reference.
  (An effect that is skipped because its dependency did not change would write what
  it wrote the last time.)
\<close>

definition App_effects :: "app \<Rightarrow> localStorage \<Rightarrow> localStorage" where
  "App_effects a st =
     (let st1 = st\<lparr>app_active_tab := Some (activeTab a)\<rparr>
      in case selectedReference a of
           Some r \<Rightarrow> st1\<lparr>app_active_reference := Some (Some r)\<rparr>
         | None \<Rightarrow> st1\<lparr>app_active_reference := None\<rparr>)"

definition handleUseAsReference :: "SavedScript \<Rightarrow> app \<Rightarrow> app" where
  "handleUseAsReference s a = a\<lparr>selectedReference := Some s, activeTab := ''create''\<rparr>"

definition onClearReference :: "app \<Rightarrow> app" where
  "onClearReference a = a\<lparr>selectedReference := None\<rparr>"

definition setActiveTab :: "string \<Rightarrow> app \<Rightarrow> app" where
  "setActiveTab t a = a\<lparr>activeTab := t\<rparr>"

text \<open>A handler, the render after it and its effects.\<close>

definition dispatch :: "(app \<Rightarrow> app) \<Rightarrow> app \<times> localStorage \<Rightarrow> app \<times> localStorage" where
  "dispatch handler p = (let a = handler (fst p) in (a, App_effects a (snd p)))"

text \<open>
  A reload of the page. Nothing of the component state survives it: \<open>App\<close> mounts
  from the store alone, and its effects run after the first render.
\<close>

definition reload :: "localStorage \<Rightarrow> app \<times> localStorage" where
  "reload st = (let a = App_init st in (a, App_effects a st))"

section \<open>Exceptions\<close>

datatype exn = Error string | TypeError | SyntaxError | RangeError | NotSupportedError | IndexSizeError

section \<open>Decoding audio for playback\<close>

type_synonym byte = "8 word"
type_synonym int16 = "16 word"

text \<open>
  \<open>new Int16Array(data.buffer)\<close>: the bytes two by two, low byte first (the byte
  order of the machines browsers run on); a buffer of odd length is refused.
\<close>

fun int16_pairs :: "byte list \<Rightarrow> int16 list" where
  "int16_pairs (lo # hi # bs) = word_cat hi lo # int16_pairs bs"
| "int16_pairs bs = []"

definition Int16Array_of :: "byte list \<Rightarrow> exn + int16 list" where
  "Int16Array_of bs = (if odd (length bs) then Inl RangeError else Inr (int16_pairs bs))"

text \<open>
  A number of a \<open>Float32Array\<close>. A 16-bit sample divided by 32768 is a multiple of
  \<open>2\<^sup>-\<^sup>1\<^sup>5\<close> of absolute value at most 1: the division is exact in double precision
  and the quotient is stored in single precision unchanged.
\<close>

datatype float = Finite real | NaN

record AudioBuffer =
  buffer_sampleRate :: nat
  channelData :: "float list list"

text \<open>
  The audio context, as far as \<open>createBuffer\<close> depends on the browser: the largest
  channel count and the sample rates it supports.
\<close>

record AudioContext =
  maxChannels :: nat
  supportsRate :: "nat \<Rightarrow> bool"

text \<open>
  \<open>ctx.createBuffer(numberOfChannels, length, sampleRate)\<close> (Web Audio API): a buffer
  of silence, or \<open>NotSupportedError\<close> when an argument is zero or out of range.
\<close>

definition createBuffer :: "AudioContext \<Rightarrow> nat \<Rightarrow> nat \<Rightarrow> nat \<Rightarrow> exn + AudioBuffer" where
  "createBuffer ctx numberOfChannels len rate =
     (if numberOfChannels = 0 \<or> maxChannels ctx < numberOfChannels \<or> len = 0
         \<or> \<not> supportsRate ctx rate
      then Inl NotSupportedError
      else Inr \<lparr>buffer_sampleRate = rate,
                channelData = replicate numberOfChannels (replicate len (Finite 0))\<rparr>)"

text \<open>
  The conversion of \<open>frameCount\<close> to the \<open>unsigned long\<close> that \<open>createBuffer\<close>
  takes: the fraction is dropped and the rest is reduced modulo \<open>2\<^sup>3\<^sup>2\<close>. With no
  channels the quotient is infinite or not a number, and both convert to 0.
\<close>

definition to_unsigned_long :: "nat \<Rightarrow> real \<Rightarrow> nat" where
  "to_unsigned_long numChannels frameCount =
     (if numChannels = 0 then 0 else nat \<lfloor>frameCount\<rfloor> mod 2 ^ 32)"

text \<open>\<open>dataInt16[k] / 32768.0\<close>; past the end the read is \<open>undefined\<close>.\<close>

definition sample_at :: "int16 list \<Rightarrow> nat \<Rightarrow> float" where
  "sample_at d k = (if k < length d then Finite (real_of_int (sint (d ! k)) / 32768) else NaN)"

text \<open>\<open>channelData[i] = v\<close>; a typed array ignores a write past its end.\<close>

definition write_at :: "float list \<Rightarrow> nat \<Rightarrow> float \<Rightarrow> float list" where
  "write_at xs i v = (if i < length xs then xs[i := v] else xs)"

text \<open>The inner loop, from \<open>i\<close> on.\<close>

function fill_channel :: "int16 list \<Rightarrow> nat \<Rightarrow> real \<Rightarrow> nat \<Rightarrow> nat \<Rightarrow> float list \<Rightarrow> float list" where
  "fill_channel d numChannels frameCount channel i xs =
     (if real i < frameCount
      then fill_channel d numChannels frameCount channel (Suc i)
             (write_at xs i (sample_at d (i * numChannels + channel)))
      else xs)"
  by pat_completeness auto
termination
proof (relation "measure (\<lambda>(d, numChannels, frameCount, channel, i, xs). nat \<lceil>frameCount\<rceil> - i)")
  show "wf (measure (\<lambda>(d, numChannels, frameCount, channel, i, xs). nat \<lceil>frameCount\<rceil> - i))"
    by simp
next
  fix d :: "int16 list" and numChannels :: nat and frameCount :: real and channel i :: nat
    and xs :: "float list"
  assume "real i < frameCount"
  then have "int i < \<lceil>frameCount\<rceil>"
    by linarith
  then show "((d, numChannels, frameCount, channel, Suc i,
               write_at xs i (sample_at d (i * numChannels + channel))),
              (d, numChannels, frameCount, channel, i, xs))
             \<in> measure (\<lambda>(d, numChannels, frameCount, channel, i, xs). nat \<lceil>frameCount\<rceil> - i)"
    by simp
qed

declare fill_channel.simps [simp del]

text \<open>
  The outer loop, from \<open>channel\<close> on. \<open>getChannelData\<close> refuses a channel that the
  buffer does not have.
\<close>

function fill_channels ::
  "int16 list \<Rightarrow> nat \<Rightarrow> real \<Rightarrow> nat \<Rightarrow> float list list \<Rightarrow> exn + float list list" where
  "fill_channels d numChannels frameCount channel chans =
     (if channel < numChannels
      then (if channel < length chans
            then fill_channels d numChannels frameCount (Suc channel)
                   (chans[channel := fill_channel d numChannels frameCount channel 0 (chans ! channel)])
            else Inl IndexSizeError)
      else Inr chans)"
  by pat_completeness auto
termination
  by (relation "measure (\<lambda>(d, numChannels, frameCount, channel, chans). numChannels - channel)") auto

declare fill_channels.simps [simp del]

definition decodeAudioData :: "byte list \<Rightarrow> AudioContext \<Rightarrow> nat \<Rightarrow> nat \<Rightarrow> exn + AudioBuffer" where
  "decodeAudioData data ctx sampleRate numChannels =
     (case Int16Array_of data of
        Inl e \<Rightarrow> Inl e
      | Inr dataInt16 \<Rightarrow>
          (let frameCount = real (length dataInt16) / real numChannels
           in case createBuffer ctx numChannels (to_unsigned_long numChannels frameCount) sampleRate of
                Inl e \<Rightarrow> Inl e
              | Inr buffer \<Rightarrow>
                  (case fill_channels dataInt16 numChannels frameCount 0 (channelData buffer) of
                     Inl e \<Rightarrow> Inl e
                   | Inr chans \<Rightarrow> Inr (buffer\<lparr>channelData := chans\<rparr>))))"

text \<open>The bytes of a list of samples, for the examples.\<close>

definition pcm_bytes :: "int list \<Rightarrow> byte list" where
  "pcm_bytes samples =
     concat (map (\<lambda>x. [word_of_int x, word_of_int (x div 256)]) samples)"

section \<open>The generation client: audio research\<close>

text \<open>\<open>sanitize\<close>: trim, then drop the angle brackets.\<close>

definition sanitize :: "string \<Rightarrow> string" where
  "sanitize val = filter (\<lambda>c. c \<noteq> CHR ''<'' \<and> c \<noteq> CHR ''>'') (trim val)"

text \<open>A value that \<open>JSON.parse\<close> returns. The keys of an object are distinct.\<close>

datatype json =
  JNull | JBool bool | JNum real | JStr string | JArr "json list" | JObj "(string \<times> json) list"

fun json_truthy :: "json \<Rightarrow> bool" where
  "json_truthy JNull = False"
| "json_truthy (JBool b) = b"
| "json_truthy (JNum x) = (x \<noteq> 0)"
| "json_truthy (JStr s) = (s \<noteq> [])"
| "json_truthy (JArr xs) = True"
| "json_truthy (JObj kvs) = True"

text \<open>
  \<open>text.replace(/```json|```/gi, '')\<close>: every code fence goes, with the word
  \<open>json\<close> after it in any case of letters.
\<close>

definition fence :: string where
  "fence = [CHR 0x60, CHR 0x60, CHR 0x60]"

function remove_fences :: "string \<Rightarrow> string" where
  "remove_fences s =
     (if toLowerCase (take 7 s) = fence @ ''json'' then remove_fences (drop 7 s)
      else if take 3 s = fence then remove_fences (drop 3 s)
      else (case s of [] \<Rightarrow> [] | c # cs \<Rightarrow> c # remove_fences cs))"
  by pat_completeness auto
termination
proof (relation "measure length")
  show "wf (measure length)"
    by simp
next
  fix s :: string
  assume "toLowerCase (take 7 s) = fence @ ''json''"
  then have "s \<noteq> []"
    by (auto simp: toLowerCase_def fence_def)
  then show "(drop 7 s, s) \<in> measure length"
    by simp
next
  fix s :: string
  assume "take 3 s = fence"
  then have "s \<noteq> []"
    by (auto simp: fence_def)
  then show "(drop 3 s, s) \<in> measure length"
    by simp
next
  fix s :: string and c :: char and cs :: string
  assume "s = c # cs"
  then show "(cs, s) \<in> measure length"
    by simp
qed

declare remove_fences.simps [simp del]

definition response_format_message :: string where
  "response_format_message = ''The AI returned an invalid response format. Please try again.''"

definition extraction_message :: string where
  "extraction_message =
     ''Unable to parse the audio research. Please speak more clearly or fill fields manually.''"

text \<open>
  \<open>parseSafeJSON\<close>. \<open>JSON.parse\<close> belongs to the platform and is a parameter:
  \<open>None\<close> where it throws.
\<close>

definition parseSafeJSON :: "(string \<Rightarrow> json option) \<Rightarrow> string \<Rightarrow> exn + json" where
  "parseSafeJSON JSON_parse t =
     (case JSON_parse (trim (remove_fences t)) of
        None \<Rightarrow> Inl (Error response_format_message)
      | Some v \<Rightarrow> Inr v)"

text \<open>
  \<open>result.name\<close> for one of the four names of the schema (none of them is inherited,
  an index or \<open>length\<close>): \<open>None\<close> is \<open>undefined\<close>, and reading a member of
  \<open>null\<close> throws.
\<close>

fun member_of :: "json \<Rightarrow> string \<Rightarrow> exn + json option" where
  "member_of JNull name = Inl TypeError"
| "member_of (JObj kvs) name = Inr (map_of kvs name)"
| "member_of v name = Inr None"

text \<open>\<open>sanitize(x || '')\<close>: a value that is neither falsy nor a string has no \<open>trim\<close>.\<close>

fun sanitized :: "json option \<Rightarrow> exn + string" where
  "sanitized None = Inr (sanitize [])"
| "sanitized (Some v) =
     (if json_truthy v
      then (case v of JStr s \<Rightarrow> Inr (sanitize s) | _ \<Rightarrow> Inl TypeError)
      else Inr (sanitize []))"

definition extract_field :: "json \<Rightarrow> string \<Rightarrow> exn + string" where
  "extract_field res name =
     (case member_of res name of Inl e \<Rightarrow> Inl e | Inr x \<Rightarrow> sanitized x)"

record research =
  research_ownerName :: string
  research_businessName :: string
  research_identifiedGap :: string
  research_freeValue :: string

text \<open>
  What the backend call does: it throws, or it returns a response whose \<open>text\<close> may
  be missing.
\<close>

datatype backend_reply = Throws exn | Responds "string option"

text \<open>The body of the \<open>try\<close> block of \<open>processAudioResearch\<close>.\<close>

definition processAudioResearch_try ::
  "(string \<Rightarrow> json option) \<Rightarrow> backend_reply \<Rightarrow> exn + research" where
  "processAudioResearch_try JSON_parse reply =
     (case reply of
        Throws e \<Rightarrow> Inl e
      | Responds t \<Rightarrow>
          (case parseSafeJSON JSON_parse
                  (case t of None \<Rightarrow> ''{}'' | Some x \<Rightarrow> if x = [] then ''{}'' else x) of
             Inl e \<Rightarrow> Inl e
           | Inr res \<Rightarrow>
               (case extract_field res ''ownerName'' of Inl e \<Rightarrow> Inl e | Inr a \<Rightarrow>
                (case extract_field res ''businessName'' of Inl e \<Rightarrow> Inl e | Inr b \<Rightarrow>
                 (case extract_field res ''identifiedGap'' of Inl e \<Rightarrow> Inl e | Inr c \<Rightarrow>
                  (case extract_field res ''freeValue'' of Inl e \<Rightarrow> Inl e | Inr d \<Rightarrow>
                     Inr \<lparr>research_ownerName = a, research_businessName = b,
                           research_identifiedGap = c, research_freeValue = d\<rparr>))))))"

text \<open>\<open>processAudioResearch\<close>: whatever the block throws, the \<open>catch\<close> throws anew.\<close>

definition processAudioResearch ::
  "(string \<Rightarrow> json option) \<Rightarrow> backend_reply \<Rightarrow> exn + research" where
  "processAudioResearch JSON_parse reply =
     (case processAudioResearch_try JSON_parse reply of
        Inl e \<Rightarrow> Inl (Error extraction_message)
      | Inr r \<Rightarrow> Inr r)"

text \<open>
  \<open>handleAudioCaptured\<close> up to its \<open>await\<close>, and after it: the call came back
  with the extracted fields, or it threw an error with a message. A field that came
  back empty keeps its old value.
\<close>

definition handleAudioCaptured :: "controller \<Rightarrow> controller" where
  "handleAudioCaptured s = s\<lparr>errorMessage := None\<rparr>"

fun handleAudioCaptured_resume :: "string + research \<Rightarrow> controller \<Rightarrow> controller" where
  "handleAudioCaptured_resume (Inr data) s =
     s\<lparr>formData := (formData s)
         \<lparr>ownerName := (if research_ownerName data \<noteq> [] then research_ownerName data
                         else ownerName (formData s)),
          businessName := (if research_businessName data \<noteq> [] then research_businessName data
                            else businessName (formData s)),
          identifiedGap := (if research_identifiedGap data \<noteq> [] then research_identifiedGap data
                             else identifiedGap (formData s)),
          freeValue := (if research_freeValue data \<noteq> [] then research_freeValue data
                         else freeValue (formData s))\<rparr>\<rparr>"
| "handleAudioCaptured_resume (Inl msg) s =
     s\<lparr>errorMessage := Some (if msg \<noteq> [] then msg else ''Failed to process audio.'')\<rparr>"

section \<open>The life of a mounted form\<close>

text \<open>
  A mounted form: the state that the last render shows, which is what the handlers of
  that render read; the state with the updates queued since, which the next render will
  show; the generation calls that were started and have not come back; and whether a
  result was set since the last render.
\<close>

record form =
  shown :: controller
  queued :: controller
  pending :: nat
  result_is_new :: bool

definition mounted :: "SavedScript option \<Rightarrow> form" where
  "mounted reference =
     \<lparr>shown = mount reference, queued = mount reference, pending = 0, result_is_new = False\<rparr>"

text \<open>Whether the result is a new one after a call of a setter.\<close>

fun sets_new_result :: "bool \<Rightarrow> setter \<Rightarrow> bool" where
  "sets_new_result b (SetResult r) = (r \<noteq> None)"
| "sets_new_result b c = b"

definition call_setters :: "setter list \<Rightarrow> form \<Rightarrow> form" where
  "call_setters calls f =
     f\<lparr>queued := foldl set_state (queued f) calls,
       result_is_new := foldl sets_new_result (result_is_new f) calls\<rparr>"

text \<open>
  What can happen to a mounted form: the handler of the button is invoked, a field is
  edited, a recording is handed over, the research on a recording comes back, a
  pending generation call comes back (none can come back when none is pending), or
  the form is rendered anew. An edit and the merge of the research are functional
  updates: they apply to the queued state. The invocation of \<open>handleGenerate\<close> reads
  the state shown. A render shows the queued state; when a result was set since the
  render before, the effect on \<open>result\<close> runs after it and queues its own calls.
\<close>

datatype event =
  Press_generate | Edit field string | Comes_back generation_outcome
  | Audio_captured | Research_back "string + research" | Render

fun step :: "form \<Rightarrow> event \<Rightarrow> form" where
  "step f Press_generate =
     (case handleGenerate_calls (shown f) of
        (calls, None) \<Rightarrow> call_setters calls f
      | (calls, Some r) \<Rightarrow> (call_setters calls f)\<lparr>pending := Suc (pending f)\<rparr>)"
| "step f (Edit fld v) = f\<lparr>queued := updateField fld v (queued f)\<rparr>"
| "step f (Comes_back out) =
     (if pending f = 0 then f
      else (call_setters (handleGenerate_resume out) f)\<lparr>pending := pending f - 1\<rparr>)"
| "step f Audio_captured = f\<lparr>queued := handleAudioCaptured (queued f)\<rparr>"
| "step f (Research_back outcome) = f\<lparr>queued := handleAudioCaptured_resume outcome (queued f)\<rparr>"
| "step f Render =
     (if result_is_new f
      then (call_setters result_effect f)\<lparr>shown := queued f, result_is_new := False\<rparr>
      else f\<lparr>shown := queued f\<rparr>)"

definition run :: "SavedScript option \<Rightarrow> event list \<Rightarrow> form" where
  "run reference es = foldl step (mounted reference) es"

section \<open>Notions used in the statements\<close>

text \<open>
  One call is pending exactly while the queued status is \<open>LOADING\<close>; and the state
  shown is not behind on it.
\<close>

definition counted :: "form \<Rightarrow> bool" where
  "counted f = (pending f = (if status (queued f) = LOADING then 1 else 0))"

definition settled :: "form \<Rightarrow> bool" where
  "settled f = (counted f \<and> (if status (queued f) = LOADING then status (shown f) = LOADING else True))"

text \<open>
  The runs in which the form is rendered anew after an invocation of the handler of the
  button, before anything else happens (the first argument says that the event before
  was such an invocation). React renders after the handler of a click returns and
  before it delivers the next event.
\<close>

fun renders_follow :: "bool \<Rightarrow> event list \<Rightarrow> bool" where
  "renders_follow pressed [] = True"
| "renders_follow pressed (e # es) =
     (if pressed then e = Render \<and> renders_follow False es
      else renders_follow (e = Press_generate) es)"

definition rendered_after_press :: "event list \<Rightarrow> bool" where
  "rendered_after_press es = renders_follow False es"

text \<open>A user who fills the four required fields, and the render that shows them.\<close>

definition filled_form :: "event list" where
  "filled_form =
     [Edit OwnerName ''Mike'', Edit BusinessName ''Acme'', Edit IdentifiedGap ''slow site'',
      Edit FreeValue ''a mockup'', Render]"

text \<open>An edit of the tone.\<close>

fun edits_tone :: "event \<Rightarrow> bool" where
  "edits_tone (Edit f v) = (f = Tone)"
| "edits_tone e = False"

text \<open>The personas that a run of events picks by hand, in order.\<close>

fun picked_voices :: "event list \<Rightarrow> string list" where
  "picked_voices [] = []"
| "picked_voices (Edit f v # es) = (if f = SelectedVoice then v # picked_voices es else picked_voices es)"
| "picked_voices (e # es) = picked_voices es"

text \<open>A text in which the regular expression of the timing markers has a match.\<close>

fun has_marker :: "string \<Rightarrow> bool" where
  "has_marker [] = False"
| "has_marker (c # cs) = ((c = CHR ''['' \<and> after_marker cs \<noteq> None) \<or> has_marker cs)"

text \<open>The example script of the specification.\<close>

definition example_script :: string where
  "example_script = ''[0-5s] Hey Mike, [5-10s] saw your site''"

text \<open>A script of \<open>n\<close> words behind one timing marker.\<close>

definition script_of_words :: "nat \<Rightarrow> VoiceNoteResult" where
  "script_of_words n = \<lparr>script = ''[0-5s] '' @ concat (replicate n ''word ''), followUp = []\<rparr>"

text \<open>Examples for the library: two saved scripts, a generated result, a store.\<close>

definition script_a :: SavedScript where
  "script_a =
     \<lparr>script_id = ''1700000000001'', title = ''Ann @ Bakery'', content = ''[0-5s] Hi Ann'',
      script_ownerName = ''Ann'', script_businessName = ''Bakery'', createdAt = 1700000000001\<rparr>"

definition script_b :: SavedScript where
  "script_b =
     \<lparr>script_id = ''1700000000000'', title = ''Bob @ Garage'', content = ''[0-5s] Hi Bob'',
      script_ownerName = ''Bob'', script_businessName = ''Garage'', createdAt = 1700000000000\<rparr>"

definition example_store :: localStorage where
  "example_store =
     \<lparr>voice_note_library = Some [script_a, script_b], app_active_reference = None,
      app_active_tab = Some ''library''\<rparr>"

definition generated_form :: controller where
  "generated_form =
     (mount None)\<lparr>formData := initial_formData\<lparr>ownerName := ''Mike'', businessName := ''Acme''\<rparr>,
       result := Some \<lparr>script = ''[0-5s] Hey Mike'', followUp = ''Sent it over''\<rparr>,
       status := SUCCESS\<rparr>"

text \<open>A run of tab switches.\<close>

definition switch_tabs :: "string list \<Rightarrow> app \<times> localStorage \<Rightarrow> app \<times> localStorage" where
  "switch_tabs ts p = foldl (\<lambda>q t. dispatch (setActiveTab t) q) p ts"

text \<open>
  A stand-in for \<open>JSON.parse\<close> in the examples: it reads the empty object and one
  object of the schema, and refuses every other text, as the real one refuses a text
  that is not JSON.
\<close>

definition quoted :: "string \<Rightarrow> string" where
  "quoted s = CHR 0x22 # s @ [CHR 0x22]"

definition example_reply :: string where
  "example_reply =
     ''{'' @ quoted ''ownerName'' @ '': '' @ quoted '' <b>Ann</b> '' @ '', ''
       @ quoted ''businessName'' @ '': '' @ quoted ''Bakery'' @ ''}''"

definition example_parse :: "string \<Rightarrow> json option" where
  "example_parse t =
     (if t = ''{}'' then Some (JObj [])
      else if t = example_reply
      then Some (JObj [(''ownerName'', JStr '' <b>Ann</b> ''), (''businessName'', JStr ''Bakery'')])
      else None)"

text \<open>
  An audio context with the limits that every implementation of the Web Audio API
  supports at least: 32 channels, and the sample rates from 8000 to 96000.
\<close>

definition browser_context :: AudioContext where
  "browser_context = \<lparr>maxChannels = 32, supportsRate = (\<lambda>rate. 8000 \<le> rate \<and> rate \<le> 96000)\<rparr>"

text \<open>The frames of the buffer that \<open>decodeAudioData\<close> creates.\<close>

definition frames_of :: "byte list \<Rightarrow> nat \<Rightarrow> nat" where
  "frames_of data numChannels = (length data div 2 div numChannels) mod 2 ^ 32"

text \<open>
  The channels the decoding is to produce: sample \<open>i\<close> of channel \<open>c\<close> is the 16-bit
  sample \<open>i * numChannels + c\<close> of the stream, read as a signed number and divided by
  32768.
\<close>

definition decoded_channels :: "byte list \<Rightarrow> nat \<Rightarrow> float list list" where
  "decoded_channels data numChannels =
     map (\<lambda>c. map (\<lambda>i. Finite (real_of_int (sint (int16_pairs data ! (i * numChannels + c))) / 32768))
                 [0..<frames_of data numChannels])
       [0..<numChannels]"

definition in_int16 :: "int \<Rightarrow> bool" where
  "in_int16 x = (- 32768 \<le> x \<and> x < 32768)"

text \<open>The words of a script: the pieces of the stripped and trimmed text that are not empty.\<close>

definition words_of :: "string \<Rightarrow> string list" where
  "words_of script_text =
     filter (\<lambda>w. w \<noteq> []) (split_whitespace (trim (strip_markers script_text)))"

section \<open>Properties of the form controller\<close>

subsection \<open>Facts about the handlers\<close>

lemma handleGenerate_loading: "status s = LOADING \<Longrightarrow> handleGenerate s = (s, None)"
  by (simp add: handleGenerate_def)

text \<open>
  \<open>handleGenerate\<close> is its calls of the setters, applied to the very state it reads.
\<close>

lemma handleGenerate_by_calls:
  "handleGenerate s = (foldl set_state s (fst (handleGenerate_calls s)), snd (handleGenerate_calls s))"
  by (simp add: handleGenerate_def handleGenerate_calls_def validateFields_def split: option.splits)

lemma set_state_formData: "formData (foldl set_state s calls) = formData s"
proof (induction calls arbitrary: s)
  case Nil
  then show ?case by simp
next
  case (Cons c calls)
  then show ?case by (cases c) simp_all
qed

lemma handleGenerate_calls_loading:
  "status s = LOADING \<Longrightarrow> handleGenerate_calls s = ([], None)"
  by (simp add: handleGenerate_calls_def)

lemma handleGenerate_calls_none:
  "snd (handleGenerate_calls s) = None \<Longrightarrow>
     status (foldl set_state q (fst (handleGenerate_calls s))) = status q"
  by (auto simp: handleGenerate_calls_def split: option.splits if_splits)

lemma handleGenerate_calls_some:
  "snd (handleGenerate_calls s) = Some r \<Longrightarrow>
     status s \<noteq> LOADING \<and> status (foldl set_state q (fst (handleGenerate_calls s))) = LOADING"
  by (auto simp: handleGenerate_calls_def split: option.splits if_splits)

lemma resume_not_loading: "status (foldl set_state q (handleGenerate_resume out)) \<noteq> LOADING"
  by (cases out) auto

lemma result_effect_status: "status (foldl set_state q result_effect) = status q"
  by (simp add: result_effect_def)

lemma updateField_status: "status (updateField f v s) = status s"
  by (simp add: updateField_def Let_def)

lemma handleAudioCaptured_resume_status: "status (handleAudioCaptured_resume outcome s) = status s"
  by (cases outcome) auto

lemma handleAudioCaptured_resume_voice:
  "selectedVoice (formData (handleAudioCaptured_resume outcome s)) = selectedVoice (formData s)"
  by (cases outcome) auto

lemma queued_call_setters: "queued (call_setters calls f) = foldl set_state (queued f) calls"
  by (simp add: call_setters_def)

lemma shown_call_setters: "shown (call_setters calls f) = shown f"
  by (simp add: call_setters_def)

lemma pending_call_setters: "pending (call_setters calls f) = pending f"
  by (simp add: call_setters_def)

lemma step_press_loading: "status (shown f) = LOADING \<Longrightarrow> step f Press_generate = f"
  by (simp add: handleGenerate_calls_loading call_setters_def)

lemma validation_messages:
  "validation_message ''ownerName'' = ''Please provide a valid value for owner name.''"
  "validation_message ''businessName'' = ''Please provide a valid value for business name.''"
  "validation_message ''identifiedGap'' = ''Please provide a valid value for identified gap.''"
  "validation_message ''freeValue'' = ''Please provide a valid value for free value.''"
  by code_simp+

lemma field_invalid_examples:
  "field_invalid []" "field_invalid '' a ''" "\<not> field_invalid ''Mike''" "\<not> field_invalid ''Acme''"
  "\<not> field_invalid ''slow site''" "\<not> field_invalid ''a mockup''"
  by code_simp+

text \<open>The example runs, step by step.\<close>

lemma run_snoc: "run reference (es @ [e]) = step (run reference es) e"
  by (simp add: run_def)

lemma run_filled_form:
  "run None filled_form =
     \<lparr>shown = (mount None)\<lparr>formData := initial_formData
        \<lparr>ownerName := ''Mike'', businessName := ''Acme'', identifiedGap := ''slow site'',
         freeValue := ''a mockup''\<rparr>\<rparr>,
      queued = (mount None)\<lparr>formData := initial_formData
        \<lparr>ownerName := ''Mike'', businessName := ''Acme'', identifiedGap := ''slow site'',
         freeValue := ''a mockup''\<rparr>\<rparr>,
      pending = 0, result_is_new = False\<rparr>"
  by (simp add: run_def filled_form_def updateField_def mounted_def mount_def)

lemma filled_form_calls:
  "handleGenerate_calls ((mount None)\<lparr>formData := initial_formData
        \<lparr>ownerName := ''Mike'', businessName := ''Acme'', identifiedGap := ''slow site'',
         freeValue := ''a mockup''\<rparr>\<rparr>)
     = ([SetErrorMessage None, SetStatus LOADING, SetResult None],
        Some \<lparr>request_input = initial_formData
                \<lparr>ownerName := ''Mike'', businessName := ''Acme'', identifiedGap := ''slow site'',
                 freeValue := ''a mockup''\<rparr>,
              request_template = None, request_reference = None\<rparr>)"
  by (simp add: handleGenerate_calls_def requiredFields_def mount_def initial_formData_def
      field_invalid_examples)

lemma run_filled_form_pressed:
  "run None (filled_form @ [Press_generate]) =
     \<lparr>shown = (mount None)\<lparr>formData := initial_formData
        \<lparr>ownerName := ''Mike'', businessName := ''Acme'', identifiedGap := ''slow site'',
         freeValue := ''a mockup''\<rparr>\<rparr>,
      queued = (mount None)\<lparr>formData := initial_formData
        \<lparr>ownerName := ''Mike'', businessName := ''Acme'', identifiedGap := ''slow site'',
         freeValue := ''a mockup''\<rparr>, status := LOADING\<rparr>,
      pending = 1, result_is_new = False\<rparr>"
  unfolding run_snoc run_filled_form
  by (simp add: filled_form_calls call_setters_def) (simp add: mount_def)

lemma run_filled_form_pressed_rendered:
  "run None (filled_form @ [Press_generate, Render]) =
     \<lparr>shown = (mount None)\<lparr>formData := initial_formData
        \<lparr>ownerName := ''Mike'', businessName := ''Acme'', identifiedGap := ''slow site'',
         freeValue := ''a mockup''\<rparr>, status := LOADING\<rparr>,
      queued = (mount None)\<lparr>formData := initial_formData
        \<lparr>ownerName := ''Mike'', businessName := ''Acme'', identifiedGap := ''slow site'',
         freeValue := ''a mockup''\<rparr>, status := LOADING\<rparr>,
      pending = 1, result_is_new = False\<rparr>"
proof -
  have "run None (filled_form @ [Press_generate, Render])
      = step (run None (filled_form @ [Press_generate])) Render"
    using run_snoc [of None "filled_form @ [Press_generate]" Render] by simp
  then show ?thesis
    unfolding run_filled_form_pressed by simp
qed

subsection \<open>Pending calls\<close>

lemma press_counted: "settled f \<Longrightarrow> counted (step f Press_generate)"
proof -
  assume s: "settled f"
  obtain calls r where h: "handleGenerate_calls (shown f) = (calls, r)"
    by (cases "handleGenerate_calls (shown f)")
  show ?thesis
  proof (cases r)
    case None
    with h handleGenerate_calls_none [of "shown f" "queued f"]
    have "status (foldl set_state (queued f) calls) = status (queued f)"
      by simp
    with s h None show ?thesis
      by (simp add: settled_def counted_def queued_call_setters pending_call_setters)
  next
    case (Some a)
    with h handleGenerate_calls_some [of "shown f" a "queued f"]
    have "status (shown f) \<noteq> LOADING" "status (foldl set_state (queued f) calls) = LOADING"
      by simp_all
    with s h Some show ?thesis
      by (auto simp: settled_def counted_def queued_call_setters split: if_splits)
  qed
qed

lemma render_settled: "counted f \<Longrightarrow> settled (step f Render)"
  by (simp add: settled_def counted_def queued_call_setters pending_call_setters
      result_effect_status)

lemma other_settled:
  "settled f \<Longrightarrow> e \<noteq> Press_generate \<Longrightarrow> settled (step f e)"
proof (cases e)
  case Press_generate
  assume "e \<noteq> Press_generate"
  with Press_generate show ?thesis by simp
next
  case (Edit fld v)
  assume "settled f"
  with Edit show ?thesis
    by (simp add: settled_def counted_def updateField_status)
next
  case (Comes_back out)
  assume "settled f"
  with Comes_back show ?thesis
    by (auto simp: settled_def counted_def queued_call_setters resume_not_loading split: if_splits)
next
  case Audio_captured
  assume "settled f"
  with Audio_captured show ?thesis
    by (simp add: settled_def counted_def handleAudioCaptured_def)
next
  case (Research_back outcome)
  assume "settled f"
  with Research_back show ?thesis
    by (simp add: settled_def counted_def handleAudioCaptured_resume_status)
next
  case Render
  assume "settled f"
  then have "counted f"
    by (simp add: settled_def)
  with Render show ?thesis
    by (simp only: render_settled)
qed

lemma foldl_counted:
  "renders_follow pressed es \<Longrightarrow> (if pressed then counted f else settled f) \<Longrightarrow>
     counted (foldl step f es)"
proof (induction es arbitrary: f pressed)
  case Nil
  then show ?case
    by (simp add: settled_def split: if_splits)
next
  case (Cons e es)
  show ?case
  proof (cases pressed)
    case True
    with Cons.prems have e: "e = Render" and es: "renders_follow False es" and c: "counted f"
      by simp_all
    from c have "settled (step f Render)"
      by (rule render_settled)
    then have "counted (foldl step (step f Render) es)"
      using Cons.IH [OF es, of "step f Render"] by simp
    with e show ?thesis
      by (simp del: step.simps)
  next
    case False
    with Cons.prems have es: "renders_follow (e = Press_generate) es" and s: "settled f"
      by simp_all
    have "if e = Press_generate then counted (step f e) else settled (step f e)"
      using s by (simp add: press_counted other_settled del: step.simps)
    then have "counted (foldl step (step f e) es)"
      by (rule Cons.IH [OF es])
    then show ?thesis
      by (simp del: step.simps)
  qed
qed

lemma mounted_settled: "settled (mounted reference)"
  by (simp add: settled_def counted_def mounted_def mount_def)

lemma run_counted: "rendered_after_press es \<Longrightarrow> counted (run reference es)"
  unfolding run_def rendered_after_press_def
  by (rule foldl_counted [where pressed = False]) (simp_all add: mounted_settled)

text \<open>
  C9. While the status that \<open>handleGenerate\<close> reads is \<open>LOADING\<close>, the invocation
  returns at once: it calls no setter and starts no backend call, so the form stays as
  it is, status, result and fields. And along every run of a mounted form in which a
  render follows each invocation, as it does between two clicks, one call is pending
  exactly while the status is \<open>LOADING\<close> and none otherwise: at most one generation
  request is in flight.
\<close>

theorem generate_while_loading_is_noop:
  "(status (shown f) = LOADING \<longrightarrow>
      handleGenerate (shown f) = (shown f, None)
      \<and> handleGenerate_calls (shown f) = ([], None)
      \<and> step f Press_generate = f)
   \<and> (rendered_after_press es \<longrightarrow>
        pending (run reference es) \<le> 1
        \<and> pending (run reference es)
            = (if status (queued (run reference es)) = LOADING then 1 else 0))"
proof -
  have noop: "handleGenerate (shown f) = (shown f, None)
      \<and> handleGenerate_calls (shown f) = ([], None)
      \<and> step f Press_generate = f"
    if "status (shown f) = LOADING"
    using that
    by (simp only: handleGenerate_loading handleGenerate_calls_loading step_press_loading simp_thms)
  have one: "pending (run reference es) \<le> 1
        \<and> pending (run reference es)
            = (if status (queued (run reference es)) = LOADING then 1 else 0)"
    if "rendered_after_press es"
    using run_counted [OF that, of reference] by (simp add: counted_def)
  from noop one show ?thesis
    by blast
qed

theorem generate_while_loading_is_noop_witness:
  "status (shown (run None (filled_form @ [Press_generate, Render]))) = LOADING
   \<and> handleGenerate (shown (run None (filled_form @ [Press_generate, Render])))
       = (shown (run None (filled_form @ [Press_generate, Render])), None)
   \<and> step (run None (filled_form @ [Press_generate, Render])) Press_generate
       = run None (filled_form @ [Press_generate, Render])
   \<and> pending (run None (filled_form @ [Press_generate, Render])) = 1
   \<and> rendered_after_press (filled_form @ [Press_generate, Render, Press_generate, Render])
   \<and> pending (run None (filled_form @ [Press_generate, Render, Press_generate, Render])) \<le> 1"
proof -
  have h: "status (shown (run None (filled_form @ [Press_generate, Render]))) = LOADING"
    by (simp add: run_filled_form_pressed_rendered)
  have p: "pending (run None (filled_form @ [Press_generate, Render])) = 1"
    by (simp add: run_filled_form_pressed_rendered)
  have r: "rendered_after_press (filled_form @ [Press_generate, Render, Press_generate, Render])"
    by (simp add: rendered_after_press_def filled_form_def)
  from generate_while_loading_is_noop
    [where f = "run None (filled_form @ [Press_generate, Render])" and reference = None
      and es = "filled_form @ [Press_generate, Render, Press_generate, Render]"] h p r
  show ?thesis
    by blast
qed

text \<open>
  The render between two invocations matters. An invocation reads the status of the
  render it belongs to, and \<open>setStatus\<close> changes only what the next render shows: a
  second invocation of the handler of the same render passes the guard again. No
  click reaches that handler, for the form is rendered anew, with the button disabled,
  before the next click is delivered.
\<close>

lemma invocations_of_one_render:
  "\<not> rendered_after_press (filled_form @ [Press_generate, Press_generate])
   \<and> pending (run None (filled_form @ [Press_generate, Press_generate])) = 2"
proof -
  have "run None (filled_form @ [Press_generate, Press_generate])
      = step (run None (filled_form @ [Press_generate])) Press_generate"
    using run_snoc [of None "filled_form @ [Press_generate]" Press_generate] by simp
  then have "pending (run None (filled_form @ [Press_generate, Press_generate])) = 2"
    unfolding run_filled_form_pressed by (simp add: filled_form_calls call_setters_def)
  then show ?thesis
    by (simp add: rendered_after_press_def filled_form_def)
qed

subsection \<open>Validation\<close>

lemma first_invalid_requiredFields:
  "first_invalid requiredFields d =
     (if field_invalid (ownerName d) then Some (validation_message ''ownerName'')
      else if field_invalid (businessName d) then Some (validation_message ''businessName'')
      else if field_invalid (identifiedGap d) then Some (validation_message ''identifiedGap'')
      else if field_invalid (freeValue d) then Some (validation_message ''freeValue'')
      else None)"
  by (simp add: requiredFields_def)

text \<open>
  C1, as amended. When one of the four required fields is empty or trims to fewer than
  two characters, \<open>handleGenerate\<close> starts no backend call and leaves the status as it
  is; and when the status is not \<open>LOADING\<close> it changes nothing but the message, which
  becomes the message of the first required field that fails.
\<close>

theorem invalid_form_blocks_generation:
  assumes "field_invalid (ownerName (formData s)) \<or> field_invalid (businessName (formData s))
    \<or> field_invalid (identifiedGap (formData s)) \<or> field_invalid (freeValue (formData s))"
  shows "snd (handleGenerate s) = None
    \<and> status (fst (handleGenerate s)) = status s
    \<and> (status s \<noteq> LOADING \<longrightarrow>
         handleGenerate s =
           (s\<lparr>errorMessage := Some
               (if field_invalid (ownerName (formData s))
                  then ''Please provide a valid value for owner name.''
                else if field_invalid (businessName (formData s))
                  then ''Please provide a valid value for business name.''
                else if field_invalid (identifiedGap (formData s))
                  then ''Please provide a valid value for identified gap.''
                else ''Please provide a valid value for free value.'')\<rparr>, None))"
proof (cases "status s = LOADING")
  case True
  then show ?thesis
    by (simp add: handleGenerate_loading)
next
  case False
  with assms show ?thesis
    by (auto simp: handleGenerate_def validateFields_def first_invalid_requiredFields
        validation_messages)
qed

theorem invalid_form_blocks_generation_witness:
  "field_invalid (businessName (formData (shown (run None
      [Edit OwnerName ''Mike'', Edit BusinessName '' a '', Render]))))
   \<and> status (shown (run None [Edit OwnerName ''Mike'', Edit BusinessName '' a '', Render])) \<noteq> LOADING
   \<and> handleGenerate (shown (run None [Edit OwnerName ''Mike'', Edit BusinessName '' a '', Render])) =
       ((shown (run None [Edit OwnerName ''Mike'', Edit BusinessName '' a '', Render]))
          \<lparr>errorMessage := Some ''Please provide a valid value for business name.''\<rparr>, None)"
proof -
  have r: "shown (run None [Edit OwnerName ''Mike'', Edit BusinessName '' a '', Render]) =
      (mount None)\<lparr>formData := initial_formData\<lparr>ownerName := ''Mike'', businessName := '' a ''\<rparr>\<rparr>"
    by (simp add: run_def updateField_def mounted_def mount_def)
  have h: "field_invalid (businessName (formData (shown (run None
      [Edit OwnerName ''Mike'', Edit BusinessName '' a '', Render]))))"
    unfolding r by (simp add: field_invalid_examples)
  have i: "field_invalid (ownerName (formData (shown (run None
        [Edit OwnerName ''Mike'', Edit BusinessName '' a '', Render])))) \<or>
      field_invalid (businessName (formData (shown (run None
        [Edit OwnerName ''Mike'', Edit BusinessName '' a '', Render])))) \<or>
      field_invalid (identifiedGap (formData (shown (run None
        [Edit OwnerName ''Mike'', Edit BusinessName '' a '', Render])))) \<or>
      field_invalid (freeValue (formData (shown (run None
        [Edit OwnerName ''Mike'', Edit BusinessName '' a '', Render]))))"
    using h by simp
  have l: "status (shown (run None [Edit OwnerName ''Mike'', Edit BusinessName '' a '', Render])) \<noteq> LOADING"
    unfolding r by (simp add: mount_def)
  have o: "\<not> field_invalid (ownerName (formData (shown (run None
      [Edit OwnerName ''Mike'', Edit BusinessName '' a '', Render]))))"
    unfolding r by (simp add: field_invalid_examples)
  from invalid_form_blocks_generation [OF i] h l o show ?thesis
    by simp
qed

text \<open>
  C1 as stated fails while a call is pending: the form is filled, generation starts,
  the owner name is cleared, and \<open>handleGenerate\<close> is invoked again. The owner name is
  invalid and no message is set.
\<close>

theorem invalid_form_while_loading_counterexample:
  "status (shown (run None (filled_form @ [Press_generate, Render, Edit OwnerName [], Render])))
     = LOADING
   \<and> field_invalid (ownerName (formData (shown (run None
         (filled_form @ [Press_generate, Render, Edit OwnerName [], Render])))))
   \<and> errorMessage (fst (handleGenerate (shown (run None
         (filled_form @ [Press_generate, Render, Edit OwnerName [], Render]))))) = None"
proof -
  have "run None (filled_form @ [Press_generate, Render, Edit OwnerName [], Render])
          = step (step (run None (filled_form @ [Press_generate, Render])) (Edit OwnerName [])) Render"
    by (simp add: run_def)
  then have r: "shown (run None (filled_form @ [Press_generate, Render, Edit OwnerName [], Render])) =
      (mount None)\<lparr>formData := initial_formData
          \<lparr>ownerName := [], businessName := ''Acme'', identifiedGap := ''slow site'',
           freeValue := ''a mockup''\<rparr>, status := LOADING\<rparr>"
    unfolding run_filled_form_pressed_rendered by (simp add: updateField_def mount_def)
  show ?thesis
    unfolding r by (simp add: handleGenerate_def field_invalid_examples mount_def)
qed

subsection \<open>Tone and voice persona\<close>

lemma selectedVoice_with_field:
  "f \<noteq> SelectedVoice \<Longrightarrow> selectedVoice (with_field f v d) = selectedVoice d"
  by (cases f) auto

lemma updateField_other_voice:
  "f \<noteq> Tone \<Longrightarrow> f \<noteq> SelectedVoice \<Longrightarrow>
     selectedVoice (formData (updateField f v s)) = selectedVoice (formData s)"
  by (simp add: updateField_def Let_def selectedVoice_with_field)

lemma updateField_pick_voice:
  "selectedVoice (formData (updateField SelectedVoice v s)) = Str v"
  by (simp add: updateField_def)

lemma queued_formData_call_setters:
  "formData (queued (call_setters calls f)) = formData (queued f)"
  by (simp add: call_setters_def set_state_formData)

lemma step_voice:
  "\<not> edits_tone e \<Longrightarrow>
     selectedVoice (formData (queued (step f e)))
       = (case picked_voices [e] of [] \<Rightarrow> selectedVoice (formData (queued f)) | v # vs \<Rightarrow> Str v)"
proof (cases e)
  case Press_generate
  then show ?thesis
    by (simp add: queued_formData_call_setters split: prod.splits option.splits)
next
  case (Edit fld v)
  assume "\<not> edits_tone e"
  with Edit show ?thesis
    by (simp add: updateField_other_voice updateField_pick_voice)
next
  case (Comes_back out)
  then show ?thesis
    by (simp add: queued_formData_call_setters)
next
  case Audio_captured
  then show ?thesis
    by (simp add: handleAudioCaptured_def)
next
  case (Research_back outcome)
  then show ?thesis
    by (simp add: handleAudioCaptured_resume_voice)
next
  case Render
  then show ?thesis
    by (simp add: queued_formData_call_setters)
qed

lemma foldl_step_voice:
  "list_all (\<lambda>e. \<not> edits_tone e) es \<Longrightarrow>
     selectedVoice (formData (queued (foldl step f es)))
       = (if picked_voices es = [] then selectedVoice (formData (queued f))
          else Str (last (picked_voices es)))"
proof (induction es arbitrary: f)
  case Nil
  then show ?case
    by simp
next
  case (Cons e es)
  from Cons.prems have e: "\<not> edits_tone e" and es: "list_all (\<lambda>e. \<not> edits_tone e) es"
    by simp_all
  have "selectedVoice (formData (queued (foldl step (step f e) es)))
          = (if picked_voices es = [] then selectedVoice (formData (queued (step f e)))
             else Str (last (picked_voices es)))"
    by (rule Cons.IH [OF es])
  with step_voice [OF e, of f] show ?case
    by (cases e) (auto split: list.splits simp del: step.simps)
qed

lemma shown_after_render: "formData (shown (step f Render)) = formData (queued f)"
  by (simp add: call_setters_def)

text \<open>
  C2. In every state, setting the tone to Casual, Professional, Direct or Warm sets the
  voice persona to Puck, Charon, Fenrir or Kore. After the user picks a persona by
  hand, no run of later events that has no edit of the tone and no new pick of a
  persona (edits of the other fields, recordings and their research, invocations of
  generation, returns of the backend, renders) alters the persona: it is the one the
  user picked, in the state and in what the next render shows. When the user picks
  again in a run without an edit of the tone, the persona is the user's latest pick.
\<close>

theorem tone_sets_voice_and_manual_choice_persists:
  "selectedVoice (formData (updateField Tone ''Casual'' s)) = Str ''Puck''
   \<and> selectedVoice (formData (updateField Tone ''Professional'' s)) = Str ''Charon''
   \<and> selectedVoice (formData (updateField Tone ''Direct'' s)) = Str ''Fenrir''
   \<and> selectedVoice (formData (updateField Tone ''Warm'' s)) = Str ''Kore''
   \<and> (list_all (\<lambda>e. \<not> edits_tone e) es \<and> picked_voices es = [] \<longrightarrow>
        selectedVoice (formData (queued (foldl step (step f (Edit SelectedVoice voice)) es)))
          = Str voice
        \<and> selectedVoice (formData (shown (step
              (foldl step (step f (Edit SelectedVoice voice)) es) Render)))
          = Str voice)
   \<and> (list_all (\<lambda>e. \<not> edits_tone e) es \<longrightarrow>
        selectedVoice (formData (queued (foldl step (step f (Edit SelectedVoice voice)) es)))
          = Str (last (voice # picked_voices es)))"
proof -
  have tones:
    "selectedVoice (formData (updateField Tone ''Casual'' s)) = Str ''Puck''"
    "selectedVoice (formData (updateField Tone ''Professional'' s)) = Str ''Charon''"
    "selectedVoice (formData (updateField Tone ''Direct'' s)) = Str ''Fenrir''"
    "selectedVoice (formData (updateField Tone ''Warm'' s)) = Str ''Kore''"
    by (simp_all add: updateField_def TONE_VOICE_MAP_at_def TONE_VOICE_MAP_def)
  have latest: "selectedVoice (formData (queued (foldl step (step f (Edit SelectedVoice voice)) es)))
          = Str (last (voice # picked_voices es))"
    if "list_all (\<lambda>e. \<not> edits_tone e) es"
    using foldl_step_voice [OF that, of "step f (Edit SelectedVoice voice)"]
    by (simp add: updateField_pick_voice)
  have kept: "selectedVoice (formData (queued (foldl step (step f (Edit SelectedVoice voice)) es)))
          = Str voice
        \<and> selectedVoice (formData (shown (step
              (foldl step (step f (Edit SelectedVoice voice)) es) Render)))
          = Str voice"
    if "list_all (\<lambda>e. \<not> edits_tone e) es" "picked_voices es = []"
    using latest [OF that(1)] that(2) by (simp only: shown_after_render) simp
  from tones latest kept show ?thesis
    by blast
qed

theorem tone_sets_voice_and_manual_choice_persists_witness:
  "list_all (\<lambda>e. \<not> edits_tone e)
     [Edit OwnerName ''Mike'', Audio_captured, Render, Press_generate, Render,
      Edit Goal ''Book a Call'', Edit Platform ''LinkedIn'']
   \<and> picked_voices
     [Edit OwnerName ''Mike'', Audio_captured, Render, Press_generate, Render,
      Edit Goal ''Book a Call'', Edit Platform ''LinkedIn''] = []
   \<and> selectedVoice (formData (updateField Tone ''Warm'' (mount None))) = Str ''Kore''
   \<and> selectedVoice (formData (queued (foldl step
        (step (step (mounted None) (Edit Tone ''Warm'')) (Edit SelectedVoice ''Charon''))
        [Edit OwnerName ''Mike'', Audio_captured, Render, Press_generate, Render,
         Edit Goal ''Book a Call'', Edit Platform ''LinkedIn''])))
       = Str ''Charon''"
proof -
  have h: "list_all (\<lambda>e. \<not> edits_tone e)
     [Edit OwnerName ''Mike'', Audio_captured, Render, Press_generate, Render,
      Edit Goal ''Book a Call'', Edit Platform ''LinkedIn'']"
    by simp
  have p: "picked_voices
     [Edit OwnerName ''Mike'', Audio_captured, Render, Press_generate, Render,
      Edit Goal ''Book a Call'', Edit Platform ''LinkedIn''] = []"
    by simp
  from tone_sets_voice_and_manual_choice_persists
    [where s = "mount None" and f = "step (mounted None) (Edit Tone ''Warm'')"
      and voice = "''Charon''"
      and es = "[Edit OwnerName ''Mike'', Audio_captured, Render, Press_generate, Render,
         Edit Goal ''Book a Call'', Edit Platform ''LinkedIn'']"]
    h p
  show ?thesis
    by blast
qed

text \<open>
  C10, as amended. An edit of a field other than the tone and the persona leaves the
  persona as it is; an edit of the persona sets it; and an edit of the tone to a value
  that \<open>TONE_VOICE_MAP\<close> has no property for (none of the four tones, and no name that
  a plain object inherits) sets the persona to Zephyr.
\<close>

theorem updateField_frame:
  "(f \<noteq> Tone \<and> f \<noteq> SelectedVoice \<longrightarrow>
      selectedVoice (formData (updateField f v s)) = selectedVoice (formData s))
   \<and> selectedVoice (formData (updateField SelectedVoice v s)) = Str v
   \<and> (v \<notin> set (map fst TONE_VOICE_MAP) \<and> v \<notin> set Object_prototype_names \<longrightarrow>
        selectedVoice (formData (updateField Tone v s)) = Str ''Zephyr'')"
proof -
  have "selectedVoice (formData (updateField Tone v s)) = Str ''Zephyr''"
    if "v \<notin> set (map fst TONE_VOICE_MAP)" "v \<notin> set Object_prototype_names"
  proof -
    from that(1) have "map_of TONE_VOICE_MAP v = None"
      by (simp add: map_of_eq_None_iff)
    with that(2) have "TONE_VOICE_MAP_at v = Undefined"
      by (simp add: TONE_VOICE_MAP_at_def)
    then show ?thesis
      by (simp add: updateField_def)
  qed
  then show ?thesis
    by (simp add: updateField_other_voice updateField_pick_voice)
qed

theorem updateField_frame_witness:
  "Goal \<noteq> Tone \<and> Goal \<noteq> SelectedVoice
   \<and> selectedVoice (formData (updateField Goal ''Book a Call'' (mount None)))
       = selectedVoice (formData (mount None))
   \<and> ''Playful'' \<notin> set (map fst TONE_VOICE_MAP) \<and> ''Playful'' \<notin> set Object_prototype_names
   \<and> selectedVoice (formData (updateField Tone ''Playful'' (mount None))) = Str ''Zephyr''"
proof -
  have h: "''Playful'' \<notin> set (map fst TONE_VOICE_MAP) \<and> ''Playful'' \<notin> set Object_prototype_names"
    by (simp add: TONE_VOICE_MAP_def Object_prototype_names_def)
  from updateField_frame [of Goal "''Book a Call''" "mount None"]
    updateField_frame [of Goal "''Playful''" "mount None"] h
  show ?thesis
    by simp
qed

text \<open>
  A tone that is the name of an inherited member finds that member, which is not
  \<open>undefined\<close>, and the persona becomes the member.
\<close>

lemma updateField_tone_inherited_name:
  "selectedVoice (formData (updateField Tone ''constructor'' s)) = Inherited ''constructor''"
  by (simp add: updateField_def TONE_VOICE_MAP_at_def TONE_VOICE_MAP_def Object_prototype_names_def)

text \<open>
  C10 as stated fails for the persona field itself, which is a field other than the
  tone; and it fails for the tone \<open>constructor\<close>, which is none of the four mapped
  tones and does not give Zephyr.
\<close>

theorem updateField_frame_counterexample:
  "SelectedVoice \<noteq> Tone
   \<and> selectedVoice (formData (updateField SelectedVoice ''Kore'' (mount None)))
       \<noteq> selectedVoice (formData (mount None))
   \<and> ''constructor'' \<notin> set [''Casual'', ''Professional'', ''Direct'', ''Warm'']
   \<and> selectedVoice (formData (updateField Tone ''constructor'' (mount None))) \<noteq> Str ''Zephyr''"
  by (simp add: updateField_def mount_def initial_formData_def TONE_VOICE_MAP_at_def
      TONE_VOICE_MAP_def Object_prototype_names_def)

section \<open>Properties of the timing markers and the duration estimate\<close>

subsection \<open>Stripping leaves no marker\<close>

lemma after_marker_strip_None:
  "after_marker cs = None \<Longrightarrow> after_marker (strip_markers cs) = None"
  by (induction cs rule: strip_markers.induct)
     (auto simp: is_line_terminator_def split: if_splits option.splits)

lemma strip_markers_no_marker: "\<not> has_marker (strip_markers s)"
  by (induction s rule: strip_markers.induct)
     (auto simp: after_marker_strip_None split: option.splits)

lemma after_marker_append:
  "after_marker cs = Some r \<Longrightarrow> after_marker (cs @ ys) = Some (r @ ys)"
  by (induction cs) (auto split: if_splits)

lemma has_marker_append_left: "has_marker ys \<Longrightarrow> has_marker (xs @ ys)"
  by (induction xs) auto

lemma has_marker_append_right: "has_marker xs \<Longrightarrow> has_marker (xs @ ys)"
  by (induction xs) (auto dest: after_marker_append)

lemma trim_infix: "\<exists>a b. s = a @ trim s @ b"
proof -
  let ?t = "dropWhile is_space s"
  have "rev (dropWhile is_space (rev ?t)) @ rev (takeWhile is_space (rev ?t))
          = rev (takeWhile is_space (rev ?t) @ dropWhile is_space (rev ?t))"
    by (simp only: rev_append)
  also have "\<dots> = rev (rev ?t)"
    by (simp only: takeWhile_dropWhile_id)
  finally have "trim s @ rev (takeWhile is_space (rev ?t)) = ?t"
    by (simp add: trim_def)
  then have "s = takeWhile is_space s @ trim s @ rev (takeWhile is_space (rev ?t))"
    by simp
  then show ?thesis
    by blast
qed

lemma trim_no_marker: "\<not> has_marker s \<Longrightarrow> \<not> has_marker (trim s)"
proof
  assume n: "\<not> has_marker s" and h: "has_marker (trim s)"
  obtain a b where s: "s = a @ trim s @ b"
    using trim_infix by blast
  from h have "has_marker (a @ trim s @ b)"
    by (intro has_marker_append_left has_marker_append_right)
  with s n show False
    by simp
qed

lemma cleanText_no_marker: "\<not> has_marker (cleanText t)"
  unfolding cleanText_def by (rule trim_no_marker) (rule strip_markers_no_marker)

lemma strip_markers_idem: "strip_markers (strip_markers s) = strip_markers s"
  by (induction s rule: strip_markers.induct)
     (auto simp: after_marker_strip_None split: option.splits)

lemma strip_example: "strip_markers example_script = '' Hey Mike,  saw your site''"
  by (simp add: example_script_def is_line_terminator_def)

lemma cleanText_example: "cleanText example_script = ''Hey Mike,  saw your site''"
  unfolding cleanText_def strip_example by (simp add: trim_def is_space_def)

lemma words_example:
  "split_whitespace (trim (strip_markers example_script))
     = [''Hey'', ''Mike,'', ''saw'', ''your'', ''site'']"
  unfolding strip_example by (simp add: trim_def is_space_def split_whitespace_def)

text \<open>
  C3, as amended. Stripping the markers from the example gives the text with the
  markers cut out and the white space around them kept, \<open>" Hey Mike,  saw your site"\<close>;
  speech synthesis trims it to \<open>"Hey Mike,  saw your site"\<close>, and the estimate counts
  its five words. For every text, what is left after stripping has no marker; the
  prompt sent to speech synthesis quotes the stripped and trimmed text, and the word
  count of the estimate is that of the stripped and trimmed text.
\<close>

theorem markers_stripped_for_estimate_and_speech:
  "strip_markers example_script = '' Hey Mike,  saw your site''
   \<and> cleanText example_script = ''Hey Mike,  saw your site''
   \<and> split_whitespace (trim (strip_markers example_script))
       = [''Hey'', ''Mike,'', ''saw'', ''your'', ''site'']
   \<and> \<not> has_marker (strip_markers t)
   \<and> \<not> has_marker (cleanText t)
   \<and> generateSpeech_prompt t tone_label
       = ''Voice this script in a '' @ toLowerCase tone_label @ '' tone: '' @ [CHR 0x22]
           @ trim (strip_markers t) @ [CHR 0x22]
   \<and> word_count t = length (split_whitespace (trim (strip_markers t)))"
proof -
  have prompt: "generateSpeech_prompt t tone_label
       = ''Voice this script in a '' @ toLowerCase tone_label @ '' tone: '' @ [CHR 0x22]
           @ trim (strip_markers t) @ [CHR 0x22]"
    by (simp add: generateSpeech_prompt_def cleanText_def)
  have count: "word_count t = length (split_whitespace (trim (strip_markers t)))"
    by (simp add: word_count_def)
  from strip_example cleanText_example words_example strip_markers_no_marker [of t]
    cleanText_no_marker [of t] prompt count
  show ?thesis
    by blast
qed

text \<open>
  C3 as stated fails: neither the stripped text nor the text sent to speech synthesis
  is \<open>"Hey Mike, saw your site"\<close>; the two spaces around the second marker both stay.
\<close>

theorem strip_example_counterexample:
  "strip_markers ''[0-5s] Hey Mike, [5-10s] saw your site'' \<noteq> ''Hey Mike, saw your site''
   \<and> cleanText ''[0-5s] Hey Mike, [5-10s] saw your site'' \<noteq> ''Hey Mike, saw your site''"
  using strip_example cleanText_example by (simp add: example_script_def)

subsection \<open>The estimate\<close>

lemma Math_round_rate: "Math_round ((real n / 140) * 60) = int ((6 * n + 7) div 14)"
  unfolding Math_round_def by linarith

lemma word_count_empty: "word_count [] = 1"
  by (simp add: word_count_def trim_def split_whitespace_def)

lemma estimatedDuration_Some:
  "estimatedDuration (Some r) = Math_round ((real (word_count (script r)) / 140) * 60)"
  by (simp add: estimatedDuration_def word_count_empty Math_round_def)

text \<open>
  The exact quotient stays clear of every half by 1/14, far more than the rounding of
  the floating-point division and product can move it.
\<close>

lemma clear_of_half:
  "1 / 14 \<le> \<bar>(real n / 140) * 60 - (real_of_int k + 1 / 2)\<bar>"
proof -
  have "(real n / 140) * 60 - (real_of_int k + 1 / 2) = real_of_int (6 * int n - 14 * k - 7) / 14"
    by (simp add: field_simps)
  moreover have "6 * int n - 14 * k - 7 \<noteq> 0"
    by presburger
  then have "1 \<le> \<bar>6 * int n - 14 * k - 7\<bar>"
    by linarith
  then have "1 \<le> \<bar>real_of_int (6 * int n - 14 * k - 7)\<bar>"
    by (metis of_int_abs of_int_1_le_iff)
  ultimately show ?thesis
    by (simp add: field_simps)
qed

text \<open>
  Unless the stripped script is blank, the pieces that are counted are words: none is
  empty and none holds white space.
\<close>

lemma last_dropWhile_nonempty: "dropWhile P xs \<noteq> [] \<Longrightarrow> last (dropWhile P xs) = last xs"
  by (induction xs) (auto split: if_splits)

lemma split_space_no_empty_piece:
  "piece \<noteq> [] \<or> (s \<noteq> [] \<and> \<not> is_space (hd s)) \<Longrightarrow> s = [] \<or> \<not> is_space (last s) \<Longrightarrow>
     [] \<notin> set (split_space piece s)"
proof (induction piece s rule: split_space.induct)
  case (1 piece)
  then show ?case
    by simp
next
  case (2 piece c cs)
  show ?case
  proof (cases "is_space c")
    case True
    with "2.prems" have piece: "piece \<noteq> []" and cs: "cs \<noteq> []" and l: "\<not> is_space (last cs)"
      by (auto split: if_splits)
    from cs l have n: "dropWhile is_space cs \<noteq> []"
      by (metis dropWhile_eq_Nil_conv last_in_set)
    then have "\<not> is_space (hd (dropWhile is_space cs))"
      by (rule hd_dropWhile)
    moreover have "\<not> is_space (last (dropWhile is_space cs))"
      using n l by (simp add: last_dropWhile_nonempty)
    ultimately have "[] \<notin> set (split_space [] (dropWhile is_space cs))"
      using n True by (intro "2.IH"(1)) simp_all
    with True piece show ?thesis
      by simp
  next
    case False
    from "2.prems" have "cs = [] \<or> \<not> is_space (last cs)"
      by (auto split: if_splits)
    then have "[] \<notin> set (split_space (c # piece) cs)"
      using False by (intro "2.IH"(2)) simp_all
    with False show ?thesis
      by simp
  qed
qed

lemma split_space_no_space:
  "list_all (\<lambda>c. \<not> is_space c) piece \<Longrightarrow>
     list_all (list_all (\<lambda>c. \<not> is_space c)) (split_space piece s)"
proof (induction piece s rule: split_space.induct)
  case (1 piece)
  then show ?case
    by (simp add: list_all_iff)
next
  case (2 piece c cs)
  then show ?case
    by (cases "is_space c") (simp_all add: list_all_iff)
qed

lemma trim_ends:
  assumes "trim s \<noteq> []"
  shows "\<not> is_space (hd (trim s)) \<and> \<not> is_space (last (trim s))"
proof -
  let ?u = "dropWhile is_space s"
  let ?v = "dropWhile is_space (rev ?u)"
  from assms have v: "?v \<noteq> []"
    by (simp add: trim_def)
  then have u: "?u \<noteq> []"
    by (cases "dropWhile is_space s = []") simp_all
  have "last (trim s) = hd ?v"
    using v by (simp add: trim_def last_rev)
  moreover have "\<not> is_space (hd ?v)"
    using v by (rule hd_dropWhile)
  moreover have "hd (trim s) = last ?v"
    using v by (simp add: trim_def hd_rev)
  moreover have "last ?v = last (rev ?u)"
    using v by (rule last_dropWhile_nonempty)
  moreover have "last (rev ?u) = hd ?u"
    using u by (simp add: last_rev)
  moreover have "\<not> is_space (hd ?u)"
    using u by (rule hd_dropWhile)
  ultimately show ?thesis
    by simp
qed

lemma words_of_trimmed:
  assumes "trim s \<noteq> []"
  shows "[] \<notin> set (split_whitespace (trim s))
    \<and> list_all (list_all (\<lambda>c. \<not> is_space c)) (split_whitespace (trim s))"
  unfolding split_whitespace_def
  using trim_ends [OF assms] assms
  by (intro conjI split_space_no_empty_piece split_space_no_space) simp_all

text \<open>
  A blank script counts as one word, an empty piece, and one word rounds to no seconds:
  the estimate is also that of the words proper.
\<close>

lemma estimatedDuration_words_of:
  "estimatedDuration (Some r) = Math_round ((real (length (words_of (script r))) / 140) * 60)"
proof (cases "trim (strip_markers (script r)) = []")
  case True
  then have "word_count (script r) = 1" "words_of (script r) = []"
    by (simp_all add: word_count_def words_of_def split_whitespace_def)
  then show ?thesis
    by (simp add: estimatedDuration_Some Math_round_def)
next
  case False
  from words_of_trimmed [OF False]
  have "filter (\<lambda>w. w \<noteq> []) (split_whitespace (trim (strip_markers (script r))))
      = split_whitespace (trim (strip_markers (script r)))"
    by (simp add: filter_id_conv) metis
  then have "length (words_of (script r)) = word_count (script r)"
    by (simp add: words_of_def word_count_def)
  then show ?thesis
    by (simp only: estimatedDuration_Some)
qed

lemma durationStatus_label:
  "label (durationStatus d) =
     (if d < 30 then ''Too Short'' else if d \<le> 55 then ''Perfect Length'' else ''A Bit Long'')"
  by (simp add: durationStatus_def)

lemma word_count_56: "word_count (script (script_of_words 56)) = 56"
  by code_simp

lemma word_count_120: "word_count (script (script_of_words 120)) = 120"
  by code_simp

lemma word_count_160: "word_count (script (script_of_words 160)) = 160"
  by code_simp

text \<open>
  C4. The estimate of a result is its word count after stripping, divided by 140,
  times 60, rounded to the nearest whole number (which is \<open>(6 n + 7) div 14\<close> for
  \<open>n\<close> words); unless the stripped script is blank, the pieces counted are its words,
  none empty and none with white space, and a blank script is estimated at 0 like a
  script of no words. A script of 56 words is estimated at 24 seconds
  and labelled too short, one of 120 words at 51 seconds and labelled perfect, one of
  160 words at 69 seconds and labelled a bit long. The three labels split the estimates
  at 30 and at 55: below 30, from 30 to 55, above 55.
\<close>

theorem duration_estimate_and_buckets:
  "estimatedDuration (Some r) = Math_round ((real (word_count (script r)) / 140) * 60)
   \<and> estimatedDuration (Some r) = int ((6 * word_count (script r) + 7) div 14)
   \<and> estimatedDuration (Some r) = Math_round ((real (length (words_of (script r))) / 140) * 60)
   \<and> (trim (strip_markers (script r)) \<noteq> [] \<longrightarrow>
        [] \<notin> set (split_whitespace (trim (strip_markers (script r))))
        \<and> list_all (list_all (\<lambda>c. \<not> is_space c))
              (split_whitespace (trim (strip_markers (script r)))))
   \<and> (word_count (script r) = 56 \<longrightarrow>
        estimatedDuration (Some r) = 24
        \<and> label (durationStatus (estimatedDuration (Some r))) = ''Too Short'')
   \<and> (word_count (script r) = 120 \<longrightarrow>
        estimatedDuration (Some r) = 51
        \<and> label (durationStatus (estimatedDuration (Some r))) = ''Perfect Length'')
   \<and> (word_count (script r) = 160 \<longrightarrow>
        estimatedDuration (Some r) = 69
        \<and> label (durationStatus (estimatedDuration (Some r))) = ''A Bit Long'')
   \<and> label (durationStatus d) =
        (if d < 30 then ''Too Short'' else if d \<le> 55 then ''Perfect Length'' else ''A Bit Long'')"
proof -
  have e: "estimatedDuration (Some r) = int ((6 * word_count (script r) + 7) div 14)"
    by (simp only: estimatedDuration_Some Math_round_rate)
  have short: "word_count (script r) = 56 \<longrightarrow>
        estimatedDuration (Some r) = 24
        \<and> label (durationStatus (estimatedDuration (Some r))) = ''Too Short''"
    unfolding e by (simp add: durationStatus_label)
  have perfect: "word_count (script r) = 120 \<longrightarrow>
        estimatedDuration (Some r) = 51
        \<and> label (durationStatus (estimatedDuration (Some r))) = ''Perfect Length''"
    unfolding e by (simp add: durationStatus_label)
  have long: "word_count (script r) = 160 \<longrightarrow>
        estimatedDuration (Some r) = 69
        \<and> label (durationStatus (estimatedDuration (Some r))) = ''A Bit Long''"
    unfolding e by (simp add: durationStatus_label)
  from estimatedDuration_Some [of r] e short perfect long durationStatus_label [of d]
    words_of_trimmed [of "strip_markers (script r)"] estimatedDuration_words_of [of r]
  show ?thesis
    by blast
qed

theorem duration_estimate_and_buckets_witness:
  "trim (strip_markers (script (script_of_words 56))) \<noteq> []
   \<and> [] \<notin> set (split_whitespace (trim (strip_markers (script (script_of_words 56)))))
   \<and> word_count (script (script_of_words 56)) = 56
   \<and> estimatedDuration (Some (script_of_words 56)) = 24
   \<and> label (durationStatus (estimatedDuration (Some (script_of_words 56)))) = ''Too Short''
   \<and> word_count (script (script_of_words 120)) = 120
   \<and> estimatedDuration (Some (script_of_words 120)) = 51
   \<and> label (durationStatus (estimatedDuration (Some (script_of_words 120)))) = ''Perfect Length''
   \<and> word_count (script (script_of_words 160)) = 160
   \<and> estimatedDuration (Some (script_of_words 160)) = 69
   \<and> label (durationStatus (estimatedDuration (Some (script_of_words 160)))) = ''A Bit Long''"
proof -
  have short: "estimatedDuration (Some (script_of_words 56)) = 24
      \<and> label (durationStatus (estimatedDuration (Some (script_of_words 56)))) = ''Too Short''"
    using duration_estimate_and_buckets [of "script_of_words 56" 0] word_count_56 by blast
  have perfect: "estimatedDuration (Some (script_of_words 120)) = 51
      \<and> label (durationStatus (estimatedDuration (Some (script_of_words 120)))) = ''Perfect Length''"
    using duration_estimate_and_buckets [of "script_of_words 120" 0] word_count_120 by blast
  have long: "estimatedDuration (Some (script_of_words 160)) = 69
      \<and> label (durationStatus (estimatedDuration (Some (script_of_words 160)))) = ''A Bit Long''"
    using duration_estimate_and_buckets [of "script_of_words 160" 0] word_count_160 by blast
  have n: "trim (strip_markers (script (script_of_words 56))) \<noteq> []"
    by code_simp
  then have w: "[] \<notin> set (split_whitespace (trim (strip_markers (script (script_of_words 56)))))"
    using duration_estimate_and_buckets [of "script_of_words 56" 0] by blast
  from n w short perfect long word_count_56 word_count_120 word_count_160 show ?thesis
    by blast
qed

section \<open>Properties of the persisted data\<close>

subsection \<open>The saved scripts\<close>

lemma stored_library_written [simp]:
  "stored_library (st\<lparr>voice_note_library := Some xs\<rparr>) = xs"
  by (simp add: stored_library_def)

lemma scripts_mounted: "scripts (LibraryView_mount st) = stored_library st"
  by (simp add: LibraryView_mount_def loadScripts_def stored_library_def split: option.splits)

lemma handleSaveToLibrary_writes:
  "result s = Some r \<Longrightarrow> script r \<noteq> [] \<Longrightarrow>
     snd (handleSaveToLibrary now_id now_created s st) =
       st\<lparr>voice_note_library := Some (newEntry now_id now_created (formData s) r # stored_library st)\<rparr>"
  by (simp add: handleSaveToLibrary_def)

lemma handleDelete_writes:
  "snd (handleDelete True i (LibraryView_mount st) st) =
     st\<lparr>voice_note_library := Some (filter (\<lambda>x. script_id x \<noteq> i) (stored_library st))\<rparr>"
  by (simp add: handleDelete_def scripts_mounted Let_def)

text \<open>
  C5. Saving a result that has a script writes the list made of the new entry followed
  by the list that was stored (an absent key counting as the empty list): the old
  entries follow, unchanged and in their order. Deleting by id from the mounted library,
  once the user confirms, writes the stored list without the entries of that id: what
  is written is a subsequence of the old list and holds exactly its entries of another
  id. A deletion that the user does not confirm writes nothing. Neither touches the
  other keys.
\<close>

theorem save_prepends_and_delete_removes:
  "(result s = Some r \<and> script r \<noteq> [] \<longrightarrow>
      stored_library (snd (handleSaveToLibrary now_id now_created s st))
        = newEntry now_id now_created (formData s) r # stored_library st
      \<and> tl (stored_library (snd (handleSaveToLibrary now_id now_created s st))) = stored_library st
      \<and> app_active_reference (snd (handleSaveToLibrary now_id now_created s st)) = app_active_reference st
      \<and> app_active_tab (snd (handleSaveToLibrary now_id now_created s st)) = app_active_tab st)
   \<and> stored_library (snd (handleDelete True i (LibraryView_mount st) st))
       = filter (\<lambda>x. script_id x \<noteq> i) (stored_library st)
   \<and> subseq (stored_library (snd (handleDelete True i (LibraryView_mount st) st))) (stored_library st)
   \<and> set (stored_library (snd (handleDelete True i (LibraryView_mount st) st)))
       = {x. x \<in> set (stored_library st) \<and> script_id x \<noteq> i}
   \<and> app_active_reference (snd (handleDelete True i (LibraryView_mount st) st)) = app_active_reference st
   \<and> app_active_tab (snd (handleDelete True i (LibraryView_mount st) st)) = app_active_tab st
   \<and> handleDelete False i v st = (v, st)"
proof -
  have save: "stored_library (snd (handleSaveToLibrary now_id now_created s st))
        = newEntry now_id now_created (formData s) r # stored_library st
      \<and> tl (stored_library (snd (handleSaveToLibrary now_id now_created s st))) = stored_library st
      \<and> app_active_reference (snd (handleSaveToLibrary now_id now_created s st)) = app_active_reference st
      \<and> app_active_tab (snd (handleSaveToLibrary now_id now_created s st)) = app_active_tab st"
    if "result s = Some r" "script r \<noteq> []"
    by (simp add: handleSaveToLibrary_writes [OF that])
  have delete: "stored_library (snd (handleDelete True i (LibraryView_mount st) st))
       = filter (\<lambda>x. script_id x \<noteq> i) (stored_library st)"
    by (simp add: handleDelete_writes)
  have keys: "app_active_reference (snd (handleDelete True i (LibraryView_mount st) st)) = app_active_reference st"
    "app_active_tab (snd (handleDelete True i (LibraryView_mount st) st)) = app_active_tab st"
    by (simp_all add: handleDelete_writes)
  have sub: "subseq (stored_library (snd (handleDelete True i (LibraryView_mount st) st))) (stored_library st)"
    unfolding delete by simp
  have members: "set (stored_library (snd (handleDelete True i (LibraryView_mount st) st)))
       = {x. x \<in> set (stored_library st) \<and> script_id x \<noteq> i}"
    unfolding delete by auto
  have declined: "handleDelete False i v st = (v, st)"
    by (simp add: handleDelete_def)
  from save delete sub members keys declined show ?thesis
    by blast
qed

theorem save_prepends_and_delete_removes_witness:
  "result generated_form = Some \<lparr>script = ''[0-5s] Hey Mike'', followUp = ''Sent it over''\<rparr>
   \<and> script \<lparr>script = ''[0-5s] Hey Mike'', followUp = ''Sent it over''\<rparr> \<noteq> []
   \<and> stored_library (snd (handleSaveToLibrary 17 18 generated_form example_store))
       = [\<lparr>script_id = ''17'', title = ''Mike @ Acme'', content = ''[0-5s] Hey Mike'',
           script_ownerName = ''Mike'', script_businessName = ''Acme'', createdAt = 18\<rparr>,
          script_a, script_b]
   \<and> stored_library (snd (handleDelete True ''1700000000001'' (LibraryView_mount example_store) example_store))
       = [script_b]"
proof -
  have r: "result generated_form = Some \<lparr>script = ''[0-5s] Hey Mike'', followUp = ''Sent it over''\<rparr>"
    by (simp add: generated_form_def)
  have n: "script \<lparr>script = ''[0-5s] Hey Mike'', followUp = ''Sent it over''\<rparr> \<noteq> []"
    by simp
  have d: "Number_toString 17 = ''17''"
    by code_simp
  have e: "newEntry 17 18 (formData generated_form) \<lparr>script = ''[0-5s] Hey Mike'', followUp = ''Sent it over''\<rparr>
      = \<lparr>script_id = ''17'', title = ''Mike @ Acme'', content = ''[0-5s] Hey Mike'',
         script_ownerName = ''Mike'', script_businessName = ''Acme'', createdAt = 18\<rparr>"
    by (simp add: newEntry_def generated_form_def initial_formData_def d)
  have l: "stored_library example_store = [script_a, script_b]"
    by (simp add: stored_library_def example_store_def)
  have f: "filter (\<lambda>x. script_id x \<noteq> ''1700000000001'') [script_a, script_b] = [script_b]"
    by (simp add: script_a_def script_b_def)
  note t = save_prepends_and_delete_removes
    [where s = generated_form and st = example_store and now_id = 17 and now_created = 18
      and r = "\<lparr>script = ''[0-5s] Hey Mike'', followUp = ''Sent it over''\<rparr>"
      and i = "''1700000000001''" and v = "LibraryView_mount example_store"]
  from t r n have a: "stored_library (snd (handleSaveToLibrary 17 18 generated_form example_store))
      = newEntry 17 18 (formData generated_form) \<lparr>script = ''[0-5s] Hey Mike'', followUp = ''Sent it over''\<rparr>
          # stored_library example_store"
    by blast
  from t have b: "stored_library (snd (handleDelete True ''1700000000001'' (LibraryView_mount example_store) example_store))
      = filter (\<lambda>x. script_id x \<noteq> ''1700000000001'') (stored_library example_store)"
    by blast
  from a [unfolded e l] b [unfolded l f] r n show ?thesis
    by blast
qed

subsection \<open>The style reference\<close>

lemma App_init_reference:
  "selectedReference (App_init st) =
     (case app_active_reference st of None \<Rightarrow> None | Some saved \<Rightarrow> saved)"
  by (simp add: App_init_def)

lemma reload_state: "fst (reload st) = App_init st"
  by (simp add: reload_def Let_def)

lemma dispatch_reference_stored:
  "app_active_reference (snd (dispatch h p)) =
     (case selectedReference (h (fst p)) of None \<Rightarrow> None | Some x \<Rightarrow> Some (Some x))"
  by (simp add: dispatch_def App_effects_def Let_def split: option.splits)

lemma dispatch_tab_stored: "app_active_tab (snd (dispatch h p)) = Some (activeTab (h (fst p)))"
  by (simp add: dispatch_def App_effects_def Let_def split: option.splits)

lemma dispatch_state: "fst (dispatch h p) = h (fst p)"
  by (simp add: dispatch_def Let_def)

lemma switch_tabs_reference:
  "selectedReference (fst p) = Some x \<Longrightarrow> app_active_reference (snd p) = Some (Some x) \<Longrightarrow>
     selectedReference (fst (switch_tabs ts p)) = Some x
     \<and> app_active_reference (snd (switch_tabs ts p)) = Some (Some x)"
proof (induction ts arbitrary: p)
  case Nil
  then show ?case
    by (simp add: switch_tabs_def)
next
  case (Cons t ts)
  have s: "switch_tabs (t # ts) p = switch_tabs ts (dispatch (setActiveTab t) p)"
    by (simp add: switch_tabs_def)
  from Cons.prems have a: "selectedReference (fst (dispatch (setActiveTab t) p)) = Some x"
    by (simp add: dispatch_state setActiveTab_def)
  from Cons.prems have b: "app_active_reference (snd (dispatch (setActiveTab t) p)) = Some (Some x)"
    by (simp add: dispatch_reference_stored setActiveTab_def)
  from Cons.IH [OF a b] show ?case
    unfolding s .
qed

text \<open>
  C8. After a saved script is chosen as the style reference, the store holds it, and
  an \<open>App\<close> that mounts from that store alone (a reload: no component state
  survives) starts with that same script as the reference and with the generator tab;
  so it does when the user switches tabs any number of times before the reload, and the
  effects of the reloaded \<open>App\<close> leave the script in the store. After the reference
  is cleared the key is absent from the store (it does not hold \<open>null\<close>), and an
  \<open>App\<close> that mounts from that store starts with no reference.
\<close>

theorem reference_round_trips_and_clearing_removes:
  "app_active_reference (snd (dispatch (handleUseAsReference x) p)) = Some (Some x)
   \<and> selectedReference (App_init (snd (dispatch (handleUseAsReference x) p))) = Some x
   \<and> activeTab (App_init (snd (dispatch (handleUseAsReference x) p))) = ''create''
   \<and> selectedReference (App_init (snd (switch_tabs ts (dispatch (handleUseAsReference x) p))))
       = Some x
   \<and> fst (reload (snd (dispatch (handleUseAsReference x) p)))
       = \<lparr>activeTab = ''create'', selectedReference = Some x\<rparr>
   \<and> app_active_reference (snd (reload (snd (dispatch (handleUseAsReference x) p)))) = Some (Some x)
   \<and> app_active_reference (snd (dispatch onClearReference p)) = None
   \<and> selectedReference (App_init (snd (dispatch onClearReference p))) = None
   \<and> selectedReference (fst (reload (snd (dispatch onClearReference p)))) = None"
proof -
  let ?q = "dispatch (handleUseAsReference x) p"
  have stored: "app_active_reference (snd ?q) = Some (Some x)"
    by (simp add: dispatch_reference_stored handleUseAsReference_def)
  have state: "selectedReference (fst ?q) = Some x"
    by (simp add: dispatch_state handleUseAsReference_def)
  have restored: "selectedReference (App_init (snd ?q)) = Some x"
    by (simp add: App_init_reference stored)
  have tab: "activeTab (App_init (snd ?q)) = ''create''"
    by (simp add: App_init_def dispatch_tab_stored handleUseAsReference_def)
  have "app_active_reference (snd (switch_tabs ts ?q)) = Some (Some x)"
    using switch_tabs_reference [OF state stored] by simp
  then have switched: "selectedReference (App_init (snd (switch_tabs ts ?q))) = Some x"
    by (simp add: App_init_reference)
  have whole: "fst (reload (snd ?q)) = \<lparr>activeTab = ''create'', selectedReference = Some x\<rparr>"
    unfolding reload_state
    by (simp add: App_init_def stored dispatch_tab_stored handleUseAsReference_def)
  have kept: "app_active_reference (snd (reload (snd ?q))) = Some (Some x)"
    using restored by (simp add: reload_def Let_def App_effects_def)
  have cleared: "app_active_reference (snd (dispatch onClearReference p)) = None"
    by (simp add: dispatch_reference_stored onClearReference_def)
  then have none: "selectedReference (App_init (snd (dispatch onClearReference p))) = None"
    by (simp add: App_init_reference)
  then have none': "selectedReference (fst (reload (snd (dispatch onClearReference p)))) = None"
    by (simp add: reload_state)
  from stored restored tab switched whole kept cleared none none' show ?thesis
    by blast
qed

text \<open>
  The reference that a mounting \<open>App\<close> starts with is read from the store and from
  nothing else: a store that holds another script gives that other script.
\<close>

lemma App_init_reads_store:
  "selectedReference (App_init (st\<lparr>app_active_reference := Some (Some y)\<rparr>)) = Some y
   \<and> selectedReference (App_init (st\<lparr>app_active_reference := Some None\<rparr>)) = None
   \<and> selectedReference (App_init (st\<lparr>app_active_reference := None\<rparr>)) = None"
  by (simp add: App_init_reference)

section \<open>Properties of the audio research\<close>

lemma messages_differ: "extraction_message \<noteq> response_format_message"
  by (simp add: extraction_message_def response_format_message_def)

lemma processAudioResearch_Inl:
  "processAudioResearch JSON_parse reply = Inl e \<Longrightarrow> e = Error extraction_message"
  by (auto simp: processAudioResearch_def split: sum.splits)

lemma sanitize_no_brackets: "CHR ''<'' \<notin> set (sanitize v) \<and> CHR ''>'' \<notin> set (sanitize v)"
  by (simp add: sanitize_def)

lemma sanitized_Inr:
  "sanitized x = Inr a \<Longrightarrow> \<exists>raw. a = sanitize raw"
  by (cases x) (auto split: if_splits json.splits)

lemma extract_field_Inr:
  "extract_field res name = Inr a \<Longrightarrow> \<exists>raw. a = sanitize raw"
  by (auto simp: extract_field_def split: sum.splits dest: sanitized_Inr)

text \<open>
  On success each of the four strings that \<open>processAudioResearch\<close> returns is the
  \<open>sanitize\<close> of a string, and holds no angle bracket.
\<close>

lemma processAudioResearch_sanitized:
  assumes "processAudioResearch JSON_parse reply = Inr r"
  shows "(\<exists>raw. research_ownerName r = sanitize raw)
    \<and> (\<exists>raw. research_businessName r = sanitize raw)
    \<and> (\<exists>raw. research_identifiedGap r = sanitize raw)
    \<and> (\<exists>raw. research_freeValue r = sanitize raw)"
  using assms
  by (auto simp: processAudioResearch_def processAudioResearch_try_def
      split: sum.splits backend_reply.splits dest!: extract_field_Inr)

text \<open>
  C7, where the code departs from it. A response text that \<open>JSON.parse\<close> refuses makes
  \<open>parseSafeJSON\<close> throw the response-format error, but \<open>processAudioResearch\<close> calls
  it inside its \<open>try\<close> block and its \<open>catch\<close> throws the extraction error in its
  place: the failure is the one a failing backend call gives, and no reply at all makes
  \<open>processAudioResearch\<close> fail with the response-format error. What holds of C7: on
  success each of the four strings is the \<open>sanitize\<close> of a string, and a sanitized
  string holds no angle bracket.
\<close>

theorem response_format_error_is_masked:
  "(t \<noteq> [] \<and> JSON_parse (trim (remove_fences t)) = None \<longrightarrow>
      parseSafeJSON JSON_parse t = Inl (Error response_format_message)
      \<and> processAudioResearch JSON_parse (Responds (Some t)) = Inl (Error extraction_message))
   \<and> processAudioResearch JSON_parse (Throws e) = Inl (Error extraction_message)
   \<and> processAudioResearch JSON_parse reply \<noteq> Inl (Error response_format_message)
   \<and> extraction_message \<noteq> response_format_message
   \<and> (processAudioResearch JSON_parse reply = Inr r \<longrightarrow>
        (\<exists>raw. research_ownerName r = sanitize raw)
        \<and> (\<exists>raw. research_businessName r = sanitize raw)
        \<and> (\<exists>raw. research_identifiedGap r = sanitize raw)
        \<and> (\<exists>raw. research_freeValue r = sanitize raw))
   \<and> CHR ''<'' \<notin> set (sanitize v) \<and> CHR ''>'' \<notin> set (sanitize v)"
proof -
  have masked: "parseSafeJSON JSON_parse t = Inl (Error response_format_message)
      \<and> processAudioResearch JSON_parse (Responds (Some t)) = Inl (Error extraction_message)"
    if "t \<noteq> []" "JSON_parse (trim (remove_fences t)) = None"
    using that by (simp add: processAudioResearch_def processAudioResearch_try_def parseSafeJSON_def)
  have thrown: "processAudioResearch JSON_parse (Throws e) = Inl (Error extraction_message)"
    by (simp add: processAudioResearch_def processAudioResearch_try_def)
  have never: "processAudioResearch JSON_parse reply \<noteq> Inl (Error response_format_message)"
    using processAudioResearch_Inl [of JSON_parse reply "Error response_format_message"] messages_differ
    by auto
  from masked thrown never messages_differ processAudioResearch_sanitized [of JSON_parse reply r]
    sanitize_no_brackets [of v]
  show ?thesis
    by blast
qed

text \<open>A reply in a code fence: the fence goes, and the owner name is sanitized.\<close>

lemma processAudioResearch_example:
  "processAudioResearch example_parse (Responds (Some (fence @ ''json '' @ example_reply @ fence)))
     = Inr \<lparr>research_ownerName = ''bAnn/b'', research_businessName = ''Bakery'',
            research_identifiedGap = [], research_freeValue = []\<rparr>"
  by code_simp

lemma remove_fences_plain: "remove_fences ''not json'' = ''not json''"
  by code_simp

theorem response_format_error_is_masked_witness:
  "''not json'' \<noteq> [] \<and> example_parse (trim (remove_fences ''not json'')) = None
   \<and> parseSafeJSON example_parse ''not json'' = Inl (Error response_format_message)
   \<and> processAudioResearch example_parse (Responds (Some ''not json'')) = Inl (Error extraction_message)
   \<and> processAudioResearch example_parse (Throws (Error ''Failed to fetch'')) = Inl (Error extraction_message)
   \<and> processAudioResearch example_parse (Responds None)
       = Inr \<lparr>research_ownerName = [], research_businessName = [],
              research_identifiedGap = [], research_freeValue = []\<rparr>
   \<and> (\<exists>raw. research_ownerName \<lparr>research_ownerName = [], research_businessName = [],
              research_identifiedGap = [], research_freeValue = []\<rparr> = sanitize raw)"
proof -
  have ok: "processAudioResearch example_parse (Responds None)
       = Inr \<lparr>research_ownerName = [], research_businessName = [],
              research_identifiedGap = [], research_freeValue = []\<rparr>"
    by code_simp
  have h: "''not json'' \<noteq> [] \<and> example_parse (trim (remove_fences ''not json'')) = None"
    unfolding remove_fences_plain by (simp add: example_parse_def example_reply_def quoted_def trim_def is_space_def)
  from response_format_error_is_masked
    [where t = "''not json''" and JSON_parse = example_parse and e = "Error ''Failed to fetch''"
      and reply = "Responds None"
      and r = "\<lparr>research_ownerName = [], research_businessName = [],
              research_identifiedGap = [], research_freeValue = []\<rparr>"] h ok
  show ?thesis
    by blast
qed

section \<open>Properties of the decoding\<close>

subsection \<open>The two loops\<close>

lemma fill_channel_length: "length (fill_channel d n fc ch i xs) = length xs"
proof (induction d n fc ch i xs rule: fill_channel.induct)
  case (1 d n fc ch i xs)
  show ?case
  proof (cases "real i < fc")
    case True
    with 1 show ?thesis
      by (subst fill_channel.simps) (simp add: write_at_def)
  next
    case False
    then show ?thesis
      by (subst fill_channel.simps) simp
  qed
qed

lemma fill_channel_nth:
  "j < length xs \<Longrightarrow>
     fill_channel d n fc ch i xs ! j =
       (if i \<le> j \<and> real j < fc then sample_at d (j * n + ch) else xs ! j)"
proof (induction d n fc ch i xs rule: fill_channel.induct)
  case (1 d n fc ch i xs)
  show ?case
  proof (cases "real i < fc")
    case True
    have "fill_channel d n fc ch i xs ! j
            = fill_channel d n fc ch (Suc i) (write_at xs i (sample_at d (i * n + ch))) ! j"
      using True by (subst fill_channel.simps) simp
    also have "\<dots> = (if Suc i \<le> j \<and> real j < fc then sample_at d (j * n + ch)
                       else write_at xs i (sample_at d (i * n + ch)) ! j)"
      using 1 True by (simp add: write_at_def)
    also have "\<dots> = (if i \<le> j \<and> real j < fc then sample_at d (j * n + ch) else xs ! j)"
      using True "1.prems" by (cases "j = i") (auto simp: write_at_def)
    finally show ?thesis .
  next
    case False
    then have "fill_channel d n fc ch i xs = xs"
      by (subst fill_channel.simps) simp
    moreover from False have "\<not> (i \<le> j \<and> real j < fc)"
      by (auto simp: not_less)
    ultimately show ?thesis
      by auto
  qed
qed

lemma fill_channels_Inr:
  "length chans = n \<Longrightarrow> ch \<le> n \<Longrightarrow>
     fill_channels d n fc ch chans =
       Inr (map (\<lambda>c. if ch \<le> c then fill_channel d n fc c 0 (chans ! c) else chans ! c) [0..<n])"
proof (induction d n fc ch chans rule: fill_channels.induct)
  case (1 d n fc ch chans)
  show ?case
  proof (cases "ch < n")
    case True
    let ?chans' = "chans[ch := fill_channel d n fc ch 0 (chans ! ch)]"
    have "fill_channels d n fc ch chans = fill_channels d n fc (Suc ch) ?chans'"
      using True "1.prems" by (subst fill_channels.simps) simp
    also have "\<dots> = Inr (map (\<lambda>c. if Suc ch \<le> c then fill_channel d n fc c 0 (?chans' ! c)
                                     else ?chans' ! c) [0..<n])"
      using True "1.prems" by (intro "1.IH") simp_all
    also have "map (\<lambda>c. if Suc ch \<le> c then fill_channel d n fc c 0 (?chans' ! c) else ?chans' ! c) [0..<n]
        = map (\<lambda>c. if ch \<le> c then fill_channel d n fc c 0 (chans ! c) else chans ! c) [0..<n]"
    proof (intro map_cong refl)
      fix c
      assume "c \<in> set [0..<n]"
      with "1.prems" show "(if Suc ch \<le> c then fill_channel d n fc c 0 (?chans' ! c) else ?chans' ! c)
          = (if ch \<le> c then fill_channel d n fc c 0 (chans ! c) else chans ! c)"
        by (cases "c = ch") (auto simp: nth_list_update)
    qed
    finally show ?thesis .
  next
    case False
    with "1.prems" have "ch = n"
      by simp
    have "fill_channels d n fc ch chans = Inr chans"
      using False by (subst fill_channels.simps) simp
    moreover have "map (\<lambda>c. if ch \<le> c then fill_channel d n fc c 0 (chans ! c) else chans ! c) [0..<n]
        = map (\<lambda>c. chans ! c) [0..<n]"
      using \<open>ch = n\<close> by (intro map_cong) auto
    moreover have "map (\<lambda>c. chans ! c) [0..<n] = chans"
      using "1.prems" map_nth [of chans] by simp
    ultimately show ?thesis
      by simp
  qed
qed


lemma length_int16_pairs: "length (int16_pairs bs) = length bs div 2"
  by (induction bs rule: int16_pairs.induct) auto

lemma floor_frames: "nat \<lfloor>real m / real n\<rfloor> = m div n"
  by (simp add: floor_divide_of_nat_eq)

lemma frame_fits:
  assumes "i < frames_of data n"
  shows "Suc i * n \<le> length data div 2"
proof -
  let ?len = "length data div 2"
  from assms have "i < ?len div n"
    unfolding frames_of_def by (meson less_le_trans mod_less_eq_dividend)
  then have "Suc i \<le> ?len div n"
    by simp
  then have "Suc i * n \<le> (?len div n) * n"
    by (rule mult_le_mono1)
  also have "\<dots> \<le> ?len"
    by simp
  finally show ?thesis .
qed

lemma frame_index_in_range:
  assumes "i < frames_of data n" "c < n"
  shows "i * n + c < length (int16_pairs data)"
  using frame_fits [OF assms(1)] assms(2) by (simp add: length_int16_pairs)

lemma frame_before_count:
  assumes "i < frames_of data n" "0 < n"
  shows "real i < real (length (int16_pairs data)) / real n"
proof -
  from frame_fits [OF assms(1)] have "real (Suc i * n) \<le> real (length data div 2)"
    by (simp only: of_nat_le_iff)
  then have "real i * real n < real (length data div 2)"
    using assms(2) by (simp add: algebra_simps)
  with assms(2) show ?thesis
    by (simp add: length_int16_pairs pos_less_divide_eq)
qed

lemma to_unsigned_long_frames:
  "0 < n \<Longrightarrow> to_unsigned_long n (real (length (int16_pairs data)) / real n) = frames_of data n"
  by (simp add: to_unsigned_long_def frames_of_def length_int16_pairs floor_frames)

lemma filled_channel:
  assumes "0 < n" "c < n"
  shows "fill_channel (int16_pairs data) n (real (length (int16_pairs data)) / real n) c 0
           (replicate (frames_of data n) (Finite 0))
         = map (\<lambda>i. Finite (real_of_int (sint (int16_pairs data ! (i * n + c))) / 32768))
             [0..<frames_of data n]"
proof (rule nth_equalityI)
  show "length (fill_channel (int16_pairs data) n (real (length (int16_pairs data)) / real n) c 0
           (replicate (frames_of data n) (Finite 0)))
      = length (map (\<lambda>i. Finite (real_of_int (sint (int16_pairs data ! (i * n + c))) / 32768))
             [0..<frames_of data n])"
    by (simp add: fill_channel_length)
next
  fix i
  assume "i < length (fill_channel (int16_pairs data) n (real (length (int16_pairs data)) / real n) c 0
           (replicate (frames_of data n) (Finite 0)))"
  then have i: "i < frames_of data n"
    by (simp add: fill_channel_length)
  then have "fill_channel (int16_pairs data) n (real (length (int16_pairs data)) / real n) c 0
           (replicate (frames_of data n) (Finite 0)) ! i
      = sample_at (int16_pairs data) (i * n + c)"
    using frame_before_count [OF i assms(1)] by (simp add: fill_channel_nth)
  also have "\<dots> = Finite (real_of_int (sint (int16_pairs data ! (i * n + c))) / 32768)"
    using frame_index_in_range [OF i assms(2)] by (simp add: sample_at_def)
  finally show "fill_channel (int16_pairs data) n (real (length (int16_pairs data)) / real n) c 0
           (replicate (frames_of data n) (Finite 0)) ! i
      = map (\<lambda>i. Finite (real_of_int (sint (int16_pairs data ! (i * n + c))) / 32768))
             [0..<frames_of data n] ! i"
    using i by simp
qed

lemma decodeAudioData_eq:
  "decodeAudioData data ctx rate n =
     (if odd (length data) then Inl RangeError
      else if n = 0 \<or> maxChannels ctx < n \<or> frames_of data n = 0 \<or> \<not> supportsRate ctx rate
        then Inl NotSupportedError
      else Inr \<lparr>buffer_sampleRate = rate, channelData = decoded_channels data n\<rparr>)"
proof (cases "odd (length data)")
  case True
  then show ?thesis
    by (simp add: decodeAudioData_def Int16Array_of_def)
next
  case even: False
  show ?thesis
  proof (cases "n = 0")
    case True
    with even show ?thesis
      by (simp add: decodeAudioData_def Int16Array_of_def createBuffer_def)
  next
    case False
    then have n: "0 < n"
      by simp
    let ?d = "int16_pairs data"
    let ?fc = "real (length ?d) / real n"
    let ?L = "frames_of data n"
    show ?thesis
    proof (cases "maxChannels ctx < n \<or> ?L = 0 \<or> \<not> supportsRate ctx rate")
      case True
      with even n show ?thesis
        by (auto simp: decodeAudioData_def Int16Array_of_def createBuffer_def Let_def
            to_unsigned_long_frames)
    next
      case ok: False
      have "fill_channels ?d n ?fc 0 (replicate n (replicate ?L (Finite 0)))
          = Inr (map (\<lambda>c. if 0 \<le> c
                         then fill_channel ?d n ?fc c 0 (replicate n (replicate ?L (Finite 0)) ! c)
                         else replicate n (replicate ?L (Finite 0)) ! c) [0..<n])"
        by (rule fill_channels_Inr) simp_all
      also have "map (\<lambda>c. if 0 \<le> c
                         then fill_channel ?d n ?fc c 0 (replicate n (replicate ?L (Finite 0)) ! c)
                         else replicate n (replicate ?L (Finite 0)) ! c) [0..<n]
          = decoded_channels data n"
        unfolding decoded_channels_def
        by (intro map_cong refl) (simp add: filled_channel [OF n])
      finally have "fill_channels ?d n ?fc 0 (replicate n (replicate ?L (Finite 0)))
          = Inr (decoded_channels data n)" .
      with even n ok show ?thesis
        by (simp add: decodeAudioData_def Int16Array_of_def createBuffer_def Let_def
            to_unsigned_long_frames)
    qed
  qed
qed

subsection \<open>Bytes and samples\<close>

lemma div_256_drop_bit: "(x::int) div 256 = drop_bit 8 x"
  by (simp add: drop_bit_eq_div)

lemma word_cat_pcm:
  "(word_cat (word_of_int (x div 256) :: 8 word) (word_of_int x :: 8 word) :: 16 word) = word_of_int x"
  unfolding div_256_drop_bit
  by (rule bit_word_eqI) (auto simp: bit_word_cat_iff bit_word_of_int_iff bit_drop_bit_eq)

lemma sint_16: "- 32768 \<le> x \<Longrightarrow> x < 32768 \<Longrightarrow> sint (word_of_int x :: 16 word) = x"
  by (simp add: sint_sbintrunc' signed_take_bit_int_eq_self)

lemma int16_pairs_pcm_bytes: "int16_pairs (pcm_bytes xs) = map word_of_int xs"
  by (induction xs) (simp_all add: pcm_bytes_def word_cat_pcm)

lemma sint_pcm_bytes: "list_all in_int16 xs \<Longrightarrow> map sint (int16_pairs (pcm_bytes xs)) = xs"
  by (induction xs) (simp_all add: int16_pairs_pcm_bytes in_int16_def sint_16)

lemma decoded_channels_nth:
  assumes "c < n" "i < frames_of data n"
  shows "decoded_channels data n ! c ! i
    = Finite (real_of_int (sint (int16_pairs data ! (i * n + c))) / 32768)"
  using assms by (simp add: decoded_channels_def)

lemma pcm_example: "pcm_bytes [16384, - 16384] = [0x00, 0x40, 0x00, 0xC0]"
  by (simp add: pcm_bytes_def)

lemma decoded_example:
  "decoded_channels [0x00, 0x40, 0x00, 0xC0] 1 = [[Finite (1 / 2), Finite (- (1 / 2))]]"
proof -
  have f: "frames_of [0x00, 0x40, 0x00, 0xC0] 1 = 2"
    by (simp add: frames_of_def)
  have u: "[0..<2] = [0, Suc 0]"
    by (simp add: upt_rec)
  have a: "(signed (word_cat (0x40 :: byte) (0x00 :: byte) :: int16) :: real) = 16384"
    by (simp add: word_cat_eq)
  have b: "(signed (word_cat (0xC0 :: byte) (0x00 :: byte) :: int16) :: real) = - 16384"
    by (simp add: word_cat_eq)
  show ?thesis
    unfolding decoded_channels_def f u by (simp add: a b)
qed

text \<open>
  C6, as amended. \<open>decodeAudioData\<close> refuses an odd number of bytes, and it refuses
  no channels, more channels than the context supports, a stream with no whole frame
  and a sample rate that the context does not support. For every other input it
  returns one array per channel, each of as many values as the stream has whole frames
  (the samples divided by the channels, reduced modulo \<open>2\<^sup>3\<^sup>2\<close>), and value \<open>i\<close> of
  channel \<open>c\<close> is the signed 16-bit sample \<open>i * numChannels + c\<close> of the stream divided
  by 32768. The samples are the bytes two by two, low byte first. The one-channel
  samples 16384 and -16384 decode to 0.5 and -0.5.
\<close>

theorem decodeAudioData_divides_by_32768:
  "decodeAudioData data ctx rate n =
     (if odd (length data) then Inl RangeError
      else if n = 0 \<or> maxChannels ctx < n \<or> frames_of data n = 0 \<or> \<not> supportsRate ctx rate
        then Inl NotSupportedError
      else Inr \<lparr>buffer_sampleRate = rate, channelData = decoded_channels data n\<rparr>)
   \<and> length (decoded_channels data n) = n
   \<and> (\<forall>c<n. length (decoded_channels data n ! c) = frames_of data n
        \<and> (\<forall>i<frames_of data n.
             i * n + c < length (int16_pairs data)
             \<and> decoded_channels data n ! c ! i
                 = Finite (real_of_int (sint (int16_pairs data ! (i * n + c))) / 32768)))
   \<and> (list_all in_int16 xs \<longrightarrow> map sint (int16_pairs (pcm_bytes xs)) = xs)
   \<and> decodeAudioData (pcm_bytes [16384, - 16384]) browser_context 24000 1
       = Inr \<lparr>buffer_sampleRate = 24000, channelData = [[Finite (1 / 2), Finite (- (1 / 2))]]\<rparr>"
proof -
  have shape: "\<forall>c<n. length (decoded_channels data n ! c) = frames_of data n
        \<and> (\<forall>i<frames_of data n.
             i * n + c < length (int16_pairs data)
             \<and> decoded_channels data n ! c ! i
                 = Finite (real_of_int (sint (int16_pairs data ! (i * n + c))) / 32768))"
    by (auto simp: decoded_channels_nth frame_index_in_range) (simp add: decoded_channels_def)
  have count: "length (decoded_channels data n) = n"
    by (simp add: decoded_channels_def)
  have example: "decodeAudioData (pcm_bytes [16384, - 16384]) browser_context 24000 1
       = Inr \<lparr>buffer_sampleRate = 24000, channelData = [[Finite (1 / 2), Finite (- (1 / 2))]]\<rparr>"
    unfolding pcm_example decodeAudioData_eq decoded_example
    by (simp add: browser_context_def frames_of_def)
  from decodeAudioData_eq [of data ctx rate n] count shape sint_pcm_bytes [of xs] example
  show ?thesis
    by blast
qed

lemma stereo_bytes:
  "pcm_bytes [16384, - 16384, 8192, - 8192] = [0x00, 0x40, 0x00, 0xC0, 0x00, 0x20, 0x00, 0xE0]"
  by (simp add: pcm_bytes_def)

lemma decoded_stereo:
  "decoded_channels [0x00, 0x40, 0x00, 0xC0, 0x00, 0x20, 0x00, 0xE0] 2
     = [[Finite (1 / 2), Finite (1 / 4)], [Finite (- (1 / 2)), Finite (- (1 / 4))]]"
proof -
  have f: "frames_of [0x00, 0x40, 0x00, 0xC0, 0x00, 0x20, 0x00, 0xE0] 2 = 2"
    by (simp add: frames_of_def)
  have u: "[0..<2] = [0, Suc 0]"
    by (simp add: upt_rec)
  have a: "(signed (word_cat (0x40 :: byte) (0x00 :: byte) :: int16) :: real) = 16384"
    by (simp add: word_cat_eq)
  have b: "(signed (word_cat (0xC0 :: byte) (0x00 :: byte) :: int16) :: real) = - 16384"
    by (simp add: word_cat_eq)
  have c: "(signed (word_cat (0x20 :: byte) (0x00 :: byte) :: int16) :: real) = 8192"
    by (simp add: word_cat_eq)
  have d: "(signed (word_cat (0xE0 :: byte) (0x00 :: byte) :: int16) :: real) = - 8192"
    by (simp add: word_cat_eq)
  show ?thesis
    unfolding decoded_channels_def f u by (simp add: a b c d)
qed

theorem decodeAudioData_divides_by_32768_witness:
  "list_all in_int16 [16384, - 16384, 8192, - 8192]
   \<and> map sint (int16_pairs (pcm_bytes [16384, - 16384, 8192, - 8192])) = [16384, - 16384, 8192, - 8192]
   \<and> (1 :: nat) < 2
   \<and> length (decoded_channels (pcm_bytes [16384, - 16384, 8192, - 8192]) 2 ! 1) = 2
   \<and> decodeAudioData (pcm_bytes [16384, - 16384, 8192, - 8192]) browser_context 24000 2
       = Inr \<lparr>buffer_sampleRate = 24000,
              channelData = [[Finite (1 / 2), Finite (1 / 4)], [Finite (- (1 / 2)), Finite (- (1 / 4))]]\<rparr>"
proof -
  note t = decodeAudioData_divides_by_32768
    [where data = "pcm_bytes [16384, - 16384, 8192, - 8192]" and ctx = browser_context
      and rate = 24000 and n = 2 and xs = "[16384, - 16384, 8192, - 8192]"]
  have h: "list_all in_int16 [16384, - 16384, 8192, - 8192]"
    by (simp add: in_int16_def)
  from t h have s: "map sint (int16_pairs (pcm_bytes [16384, - 16384, 8192, - 8192]))
      = [16384, - 16384, 8192, - 8192]"
    by blast
  have f: "frames_of (pcm_bytes [16384, - 16384, 8192, - 8192]) 2 = 2"
    by (simp add: frames_of_def pcm_bytes_def)
  from t have "\<forall>c<2. length (decoded_channels (pcm_bytes [16384, - 16384, 8192, - 8192]) 2 ! c)
      = frames_of (pcm_bytes [16384, - 16384, 8192, - 8192]) 2"
    by blast
  then have l: "length (decoded_channels (pcm_bytes [16384, - 16384, 8192, - 8192]) 2 ! 1) = 2"
    unfolding f by simp
  from t have "decodeAudioData (pcm_bytes [16384, - 16384, 8192, - 8192]) browser_context 24000 2 =
     (if odd (length (pcm_bytes [16384, - 16384, 8192, - 8192])) then Inl RangeError
      else if (2::nat) = 0 \<or> maxChannels browser_context < 2
          \<or> frames_of (pcm_bytes [16384, - 16384, 8192, - 8192]) 2 = 0
          \<or> \<not> supportsRate browser_context 24000
        then Inl NotSupportedError
      else Inr \<lparr>buffer_sampleRate = 24000,
             channelData = decoded_channels (pcm_bytes [16384, - 16384, 8192, - 8192]) 2\<rparr>)"
    by blast
  then have d: "decodeAudioData (pcm_bytes [16384, - 16384, 8192, - 8192]) browser_context 24000 2
       = Inr \<lparr>buffer_sampleRate = 24000,
              channelData = [[Finite (1 / 2), Finite (1 / 4)], [Finite (- (1 / 2)), Finite (- (1 / 4))]]\<rparr>"
    unfolding f unfolding stereo_bytes decoded_stereo by (simp add: browser_context_def)
  from h s l d show ?thesis
    by simp
qed

text \<open>
  C6 as stated fails for some channel counts, streams and sample rates: with no
  channels, with an empty stream, with fewer samples than channels, with more channels
  than the context supports and with a sample rate of 1, \<open>createBuffer\<close> throws and
  nothing is decoded.
\<close>

theorem decodeAudioData_counterexample:
  "decodeAudioData (pcm_bytes [16384, - 16384]) browser_context 24000 0 = Inl NotSupportedError
   \<and> decodeAudioData (pcm_bytes []) browser_context 24000 1 = Inl NotSupportedError
   \<and> decodeAudioData (pcm_bytes [16384, - 16384]) browser_context 24000 3 = Inl NotSupportedError
   \<and> decodeAudioData (pcm_bytes [16384, - 16384]) browser_context 24000 33 = Inl NotSupportedError
   \<and> decodeAudioData (pcm_bytes [16384, - 16384]) browser_context 1 1 = Inl NotSupportedError"
  unfolding decodeAudioData_eq
  by (simp add: pcm_bytes_def browser_context_def frames_of_def)

text \<open>Three bytes are not a whole number of samples: the typed array refuses them.\<close>

lemma decodeAudioData_odd: "decodeAudioData [0x00, 0x40, 0x00] ctx rate n = Inl RangeError"
  by (simp add: decodeAudioData_eq)

end
